theory Spec2Isabelle
  imports Main "HOL-Library.Char_ord" "HOL-Library.List_Lexorder" "HOL-Library.Product_Lexorder"
    "HOL-Library.Extended_Nat"
begin

section \<open>Strings of the host language\<close>

text \<open>
  The release selector of \<^verbatim>\<open>src/App.tsx\<close> works on strings read from the update feed.
  A string is modelled as a \<^typ>\<open>string\<close>: a list of code units, here the code units
  0..255. The order on strings used by the source's \<^verbatim>\<open>>\<close> on two strings is the
  lexicographic order on code units (a proper prefix is smaller), which is the order
  of \<^theory_text>\<open>List_Lexorder\<close> over \<^theory_text>\<open>Char_ord\<close>.

  The host language holds the value of a number segment as a double. Read from a run
  of decimal digits it is a non-negative integer or infinity, modelled as an
  \<^typ>\<open>enat\<close>: the integer that the digits denote where it is below \<open>2 ^ 53\<close>, and
  beyond that the nearest double (ties to even), infinity from \<open>2 ^ 1024\<close> on.
\<close>

definition is_white_space :: "char \<Rightarrow> bool" where
  \<comment> \<open>the white space and line terminators that \<^verbatim>\<open>String.prototype.trim\<close> strips:
      TAB, LF, VT, FF, CR, SP, NBSP\<close>
  "is_white_space c =
     (let n = (of_char c :: nat)
      in n = 9 \<or> n = 10 \<or> n = 11 \<or> n = 12 \<or> n = 13 \<or> n = 32 \<or> n = 160)"

definition trim :: "string \<Rightarrow> string" where
  "trim s = rev (dropWhile is_white_space (rev (dropWhile is_white_space s)))"

definition to_lower_char :: "char \<Rightarrow> char" where
  \<comment> \<open>A..Z and the upper-case letters of the range 192..222 (215 is the multiplication sign)\<close>
  "to_lower_char c =
     (let n = (of_char c :: nat)
      in if (65 \<le> n \<and> n \<le> 90) \<or> (192 \<le> n \<and> n \<le> 222 \<and> n \<noteq> 215)
         then char_of (n + 32) else c)"

definition toLowerCase :: "string \<Rightarrow> string" where
  "toLowerCase s = map to_lower_char s"

definition is_digit :: "char \<Rightarrow> bool" where
  "is_digit c = (let n = (of_char c :: nat) in 48 \<le> n \<and> n \<le> 57)"

definition is_digits :: "string \<Rightarrow> bool" where
  \<comment> \<open>the test \<^verbatim>\<open>/^\d+$/\<close>: one or more decimal digits and nothing else\<close>
  "is_digits s = (s \<noteq> [] \<and> list_all is_digit s)"

definition digit_value :: "char \<Rightarrow> nat" where
  "digit_value c = of_char c - 48"

fun bit_length :: "nat \<Rightarrow> nat" where
  "bit_length n = (if n = 0 then 0 else Suc (bit_length (n div 2)))"

definition to_double :: "nat \<Rightarrow> enat" where
  \<comment> \<open>the double nearest to a natural number: 53 significant bits, ties to even\<close>
  "to_double n =
     (if n < 2 ^ 53 then enat n
      else
        (let e = bit_length n - 53;
             q = n div 2 ^ e;
             r = n mod 2 ^ e;
             m = (if 2 * r > 2 ^ e \<or> (2 * r = 2 ^ e \<and> odd q) then q + 1 else q)
         in if m * 2 ^ e \<ge> 2 ^ 1024 then \<infinity> else enat (m * 2 ^ e)))"

definition parseInt10 :: "string \<Rightarrow> enat" where
  \<comment> \<open>\<^verbatim>\<open>parseInt(segment, 10)\<close> on a string of decimal digits\<close>
  "parseInt10 s = to_double (foldl (\<lambda>acc c. 10 * acc + digit_value c) 0 s)"

fun split_on :: "(char \<Rightarrow> bool) \<Rightarrow> string \<Rightarrow> string list" where
  "split_on p [] = [[]]"
| "split_on p (c # cs) =
     (if p c then [] # split_on p cs
      else (case split_on p cs of
              [] \<Rightarrow> [[c]]
            | piece # pieces \<Rightarrow> (c # piece) # pieces))"

definition is_delimiter :: "char \<Rightarrow> bool" where
  \<comment> \<open>the separator \<^verbatim>\<open>/[\.-]/\<close>\<close>
  "is_delimiter c = (c = CHR ''.'' \<or> c = CHR ''-'')"

section \<open>Version segments and the version comparator\<close>

datatype VersionSegment = NumberSeg enat | StringSeg string

definition tokenizeVersion :: "string \<Rightarrow> VersionSegment list" where
  "tokenizeVersion version =
     map (\<lambda>segment. if is_digits segment then NumberSeg (parseInt10 segment)
                     else StringSeg (toLowerCase segment))
       (filter (\<lambda>segment. length segment > 0)
          (map trim (split_on is_delimiter version)))"

definition segment_at :: "VersionSegment list \<Rightarrow> nat \<Rightarrow> VersionSegment" where
  \<comment> \<open>\<^verbatim>\<open>tokens[index] ?? { type: "number", value: 0 }\<close>\<close>
  "segment_at tokens index = (if index < length tokens then tokens ! index else NumberSeg 0)"

function compare_loop ::
  "VersionSegment list \<Rightarrow> VersionSegment list \<Rightarrow> nat \<Rightarrow> nat \<Rightarrow> int" where
  "compare_loop tokensA tokensB maxLength index =
     (if index < maxLength then
        (case (segment_at tokensA index, segment_at tokensB index) of
           (NumberSeg x, NumberSeg y) \<Rightarrow>
             if x = y then compare_loop tokensA tokensB maxLength (index + 1)
             else if x > y then 1 else - 1
         | (StringSeg x, StringSeg y) \<Rightarrow>
             if x = y then compare_loop tokensA tokensB maxLength (index + 1)
             else if x > y then 1 else - 1
         | (NumberSeg x, StringSeg y) \<Rightarrow> 1
         | (StringSeg x, NumberSeg y) \<Rightarrow> - 1)
      else 0)"
  by pat_completeness auto
termination
  by (relation "measure (\<lambda>(tokensA, tokensB, maxLength, index). maxLength - index)") auto

definition compareVersionStrings :: "string \<Rightarrow> string \<Rightarrow> int" where
  "compareVersionStrings a b =
     (let tokensA = tokenizeVersion a;
          tokensB = tokenizeVersion b;
          maxLength = max (length tokensA) (length tokensB)
      in compare_loop tokensA tokensB maxLength 0)"

section \<open>The feed document\<close>

text \<open>
  The parsed feed is a tree of element and text nodes. An element has a tag name (the
  name that a type selector matches), its attributes by qualified name, in document
  order, and its child nodes. A document is the list of the children of the document
  node (for a well-formed feed: the root element). Comments and processing
  instructions are left out: no operation of the selector sees them.
\<close>

datatype node = Element string "(string \<times> string) list" "node list" | Text string

type_synonym document = "node list"

fun descendants :: "node \<Rightarrow> node list" where
  \<comment> \<open>the nodes strictly below a node, in document order\<close>
  "descendants (Text s) = []"
| "descendants (Element tag attrs children) =
     concat (map (\<lambda>child. child # descendants child) children)"

fun is_element_named :: "string \<Rightarrow> node \<Rightarrow> bool" where
  "is_element_named name (Text s) = False"
| "is_element_named name (Element tag attrs children) = (tag = name)"

definition querySelector :: "string \<Rightarrow> node \<Rightarrow> node option" where
  \<comment> \<open>\<^verbatim>\<open>node.querySelector(name)\<close>: the first descendant element of that name\<close>
  "querySelector name n = find (is_element_named name) (descendants n)"

fun getAttribute :: "string \<Rightarrow> node \<Rightarrow> string option" where
  "getAttribute name (Text s) = None"
| "getAttribute name (Element tag attrs children) = map_of attrs name"

fun textContent :: "node \<Rightarrow> string" where
  "textContent (Text s) = s"
| "textContent (Element tag attrs children) = concat (map textContent children)"

fun channel_items_below :: "node \<Rightarrow> node list" where
  \<comment> \<open>the \<^verbatim>\<open>item\<close> elements below a node whose parent is a \<^verbatim>\<open>channel\<close> element,
      in document order\<close>
  "channel_items_below (Text s) = []"
| "channel_items_below (Element tag attrs children) =
     concat (map (\<lambda>child.
        (if tag = ''channel'' \<and> is_element_named ''item'' child then [child] else [])
        @ channel_items_below child) children)"

definition querySelectorAll_channel_item :: "document \<Rightarrow> node list" where
  \<comment> \<open>\<^verbatim>\<open>xml.querySelectorAll("channel > item")\<close>; the parent of a top-level node is the
      document, which is no element\<close>
  "querySelectorAll_channel_item xml = concat (map channel_items_below xml)"

section \<open>The release selector\<close>

record VersionInfo =
  version :: string
  download_url :: string

record SparkleReleaseCandidate =
  versionKey :: "string option"
  displayVersion :: string
  downloadUrl :: string
  pubDate :: "int option"

text \<open>
  \<^verbatim>\<open>Date.parse\<close> belongs to the platform, not to the repository: the selector takes it
  as the parameter \<open>dateParse\<close>, which returns the instant in milliseconds or \<open>None\<close>
  where the platform returns \<^verbatim>\<open>NaN\<close>.
\<close>

definition trimmed_attribute :: "string \<Rightarrow> node \<Rightarrow> string" where
  \<comment> \<open>\<^verbatim>\<open>enclosure.getAttribute(name)?.trim() ?? ""\<close>\<close>
  "trimmed_attribute name enclosure =
     (case getAttribute name enclosure of None \<Rightarrow> [] | Some v \<Rightarrow> trim v)"

definition candidate_of ::
  "(string \<Rightarrow> int option) \<Rightarrow> node \<Rightarrow> SparkleReleaseCandidate option" where
  \<comment> \<open>the first half of the loop body: \<open>None\<close> where the source says \<^verbatim>\<open>continue\<close>\<close>
  "candidate_of dateParse item =
     (case querySelector ''enclosure'' item of
        None \<Rightarrow> None
      | Some enclosure \<Rightarrow>
         (case getAttribute ''url'' enclosure of
            None \<Rightarrow> None
          | Some url \<Rightarrow>
             if trim url = [] then None
             else
               (let versionAttr = trimmed_attribute ''sparkle:version'' enclosure;
                    shortVersion = trimmed_attribute ''sparkle:shortVersionString'' enclosure;
                    pubDateText = (case querySelector ''pubDate'' item of
                                     None \<Rightarrow> []
                                   | Some e \<Rightarrow> trim (textContent e))
                in Some \<lparr>
                     versionKey = (if versionAttr \<noteq> [] then Some versionAttr
                                   else if shortVersion \<noteq> [] then Some shortVersion
                                   else None),
                     displayVersion = (if shortVersion \<noteq> [] then shortVersion
                                       else if versionAttr \<noteq> [] then versionAttr
                                       else []),
                     downloadUrl = trim url,
                     pubDate = (if pubDateText \<noteq> [] then dateParse pubDateText else None)
                   \<rparr>)))"

definition truthy :: "string option \<Rightarrow> string option" where
  \<comment> \<open>a \<^verbatim>\<open>string | null\<close> used as a condition: \<^verbatim>\<open>null\<close> and the empty string are false\<close>
  "truthy k = (case k of None \<Rightarrow> None | Some s \<Rightarrow> if s = [] then None else Some s)"

fun later_than :: "int option \<Rightarrow> int option \<Rightarrow> bool" where
  \<comment> \<open>\<^verbatim>\<open>(c ?? -Infinity) > (l ?? -Infinity)\<close>\<close>
  "later_than None l = False"
| "later_than (Some c) None = True"
| "later_than (Some c) (Some l) = (c > l)"

definition by_pubDate ::
  "SparkleReleaseCandidate \<Rightarrow> SparkleReleaseCandidate \<Rightarrow> SparkleReleaseCandidate" where
  "by_pubDate latest candidate =
     (if later_than (pubDate candidate) (pubDate latest) then candidate else latest)"

fun select_step ::
  "SparkleReleaseCandidate option \<Rightarrow> SparkleReleaseCandidate \<Rightarrow> SparkleReleaseCandidate" where
  \<comment> \<open>the second half of the loop body: the new value of \<^verbatim>\<open>latest\<close>\<close>
  "select_step None candidate = candidate"
| "select_step (Some latest) candidate =
     (case (truthy (versionKey candidate), truthy (versionKey latest)) of
        (Some ck, Some lk) \<Rightarrow>
          (let versionComparison = compareVersionStrings ck lk
           in if versionComparison > 0 then candidate
              else if versionComparison < 0 then latest
              else by_pubDate latest candidate)
      | (Some ck, None) \<Rightarrow> candidate
      | (None, Some lk) \<Rightarrow> latest
      | (None, None) \<Rightarrow> by_pubDate latest candidate)"

fun select_loop ::
  "(string \<Rightarrow> int option) \<Rightarrow> SparkleReleaseCandidate option \<Rightarrow> node list
     \<Rightarrow> SparkleReleaseCandidate option" where
  "select_loop dateParse latest [] = latest"
| "select_loop dateParse latest (item # items) =
     (case candidate_of dateParse item of
        None \<Rightarrow> select_loop dateParse latest items
      | Some candidate \<Rightarrow> select_loop dateParse (Some (select_step latest candidate)) items)"

definition findLatestSparkleRelease ::
  "(string \<Rightarrow> int option) \<Rightarrow> document \<Rightarrow> VersionInfo option" where
  "findLatestSparkleRelease dateParse xml =
     (case select_loop dateParse None (querySelectorAll_channel_item xml) of
        None \<Rightarrow> None
      | Some latest \<Rightarrow>
          Some \<lparr>version = displayVersion latest, download_url = downloadUrl latest\<rparr>)"

fun comparator_calls ::
  "(string \<Rightarrow> int option) \<Rightarrow> SparkleReleaseCandidate option \<Rightarrow> node list
     \<Rightarrow> (string \<times> string) list" where
  \<comment> \<open>the argument pairs of the calls of \<^verbatim>\<open>compareVersionStrings\<close> that the loop makes,
      in the order of the calls\<close>
  "comparator_calls dateParse latest [] = []"
| "comparator_calls dateParse latest (item # items) =
     (case candidate_of dateParse item of
        None \<Rightarrow> comparator_calls dateParse latest items
      | Some candidate \<Rightarrow>
          (case latest of
             None \<Rightarrow> []
           | Some l \<Rightarrow>
              (case (truthy (versionKey candidate), truthy (versionKey l)) of
                 (Some ck, Some lk) \<Rightarrow> [(ck, lk)]
               | _ \<Rightarrow> []))
          @ comparator_calls dateParse (Some (select_step latest candidate)) items)"

fun running_best ::
  "(string \<Rightarrow> int option) \<Rightarrow> SparkleReleaseCandidate option \<Rightarrow> node list
     \<Rightarrow> SparkleReleaseCandidate option list" where
  \<comment> \<open>the value of \<^verbatim>\<open>latest\<close> after each iteration of the loop\<close>
  "running_best dateParse latest [] = []"
| "running_best dateParse latest (item # items) =
     (case candidate_of dateParse item of
        None \<Rightarrow> latest # running_best dateParse latest items
      | Some candidate \<Rightarrow>
          Some (select_step latest candidate)
          # running_best dateParse (Some (select_step latest candidate)) items)"

text \<open>Feed items as the scenarios of the specification describe them.\<close>

definition feed_item :: "(string \<times> string) list \<Rightarrow> string option \<Rightarrow> node" where
  \<comment> \<open>an item with one enclosure carrying the given attributes, and a publish date
      element when a text is given\<close>
  "feed_item attrs date =
     Element ''item'' []
       (Element ''enclosure'' attrs []
        # (case date of None \<Rightarrow> [] | Some d \<Rightarrow> [Element ''pubDate'' [] [Text d]]))"

definition feed :: "node list \<Rightarrow> document" where
  "feed items = [Element ''rss'' [] [Element ''channel'' [] items]]"

section \<open>The comparator as the specification words it\<close>

text \<open>
  The specification describes the comparator as padding the shorter token sequence
  with numeric-zero segments up to the length of the longer one and then comparing
  position by position. \<open>compareVersionStrings_padded\<close> follows these words; it is
  compared with the loop of the source below.
\<close>

definition padded :: "nat \<Rightarrow> VersionSegment list \<Rightarrow> VersionSegment list" where
  "padded n tokens = tokens @ replicate (n - length tokens) (NumberSeg 0)"

fun compare_positions :: "VersionSegment list \<Rightarrow> VersionSegment list \<Rightarrow> int" where
  "compare_positions (a # as) (b # bs) =
     (case (a, b) of
        (NumberSeg x, NumberSeg y) \<Rightarrow>
          if x = y then compare_positions as bs else if x > y then 1 else - 1
      | (StringSeg x, StringSeg y) \<Rightarrow>
          if x = y then compare_positions as bs else if x > y then 1 else - 1
      | (NumberSeg x, StringSeg y) \<Rightarrow> 1
      | (StringSeg x, NumberSeg y) \<Rightarrow> - 1)"
| "compare_positions as bs = 0"

definition compareVersionStrings_padded :: "string \<Rightarrow> string \<Rightarrow> int" where
  "compareVersionStrings_padded a b =
     (let tokensA = tokenizeVersion a;
          tokensB = tokenizeVersion b;
          n = max (length tokensA) (length tokensB)
      in compare_positions (padded n tokensA) (padded n tokensB))"

section \<open>Notions used in the proofs\<close>

text \<open>
  A segment is ranked by a key in a linear order: every string segment lies below every
  number segment, string segments are ordered as strings and number segments by value.
\<close>

fun seg_key :: "VersionSegment \<Rightarrow> nat \<times> enat \<times> string" where
  "seg_key (StringSeg s) = (0, 0, s)"
| "seg_key (NumberSeg n) = (1, n, [])"

definition version_key :: "nat \<Rightarrow> string \<Rightarrow> (nat \<times> enat \<times> string) list" where
  "version_key n a = map seg_key (padded n (tokenizeVersion a))"

definition decimal_value :: "string \<Rightarrow> nat" where
  \<comment> \<open>the integer that a run of decimal digits denotes\<close>
  "decimal_value s = foldl (\<lambda>acc c. 10 * acc + digit_value c) 0 s"

definition three_way :: "'a::linorder \<Rightarrow> 'a \<Rightarrow> int" where
  "three_way x y = (if x = y then 0 else if x > y then 1 else - 1)"

definition trimmed_nonempty :: "string \<Rightarrow> bool" where
  "trimmed_nonempty s = (s \<noteq> [] \<and> trim s = s)"

definition candidate_invariant :: "SparkleReleaseCandidate \<Rightarrow> bool" where
  "candidate_invariant c =
     (trimmed_nonempty (downloadUrl c) \<and>
      (case versionKey c of None \<Rightarrow> True | Some k \<Rightarrow> trimmed_nonempty k))"

definition unusable_item :: "node \<Rightarrow> bool" where
  \<comment> \<open>an item without enclosure, or whose enclosure has no url or an empty one\<close>
  "unusable_item item =
     (case querySelector ''enclosure'' item of
        None \<Rightarrow> True
      | Some enclosure \<Rightarrow>
          (case getAttribute ''url'' enclosure of None \<Rightarrow> True | Some url \<Rightarrow> trim url = []))"

definition all_nodes :: "document \<Rightarrow> node list" where
  "all_nodes xml = concat (map (\<lambda>n. n # descendants n) xml)"

definition scenario_dateParse :: "string \<Rightarrow> int option" where
  \<comment> \<open>a date parser that knows the two dates of scenario B\<close>
  "scenario_dateParse s =
     (if s = ''Mon, 01 Jan 2024 00:00:00 GMT'' then Some 1704067200000
      else if s = ''Wed, 01 Jan 2025 00:00:00 GMT'' then Some 1735689600000
      else None)"

section \<open>Evaluation of number values\<close>

text \<open>
  For evaluation the range test of \<open>to_double\<close> is made on integers, whose numerals are
  binary.
\<close>

lemma to_double_code [code]:
  "to_double n =
     (if int n < 2 ^ 53 then enat n
      else
        (let e = bit_length n - 53;
             q = n div 2 ^ e;
             r = n mod 2 ^ e;
             m = (if 2 * r > 2 ^ e \<or> (2 * r = 2 ^ e \<and> odd q) then q + 1 else q)
         in if m * 2 ^ e \<ge> 2 ^ 1024 then \<infinity> else enat (m * 2 ^ e)))"
proof -
  have "int n < 2 ^ 53 \<longleftrightarrow> n < 2 ^ 53"
    using of_nat_less_iff [where ?'a = int, of n "2 ^ 53"] by simp
  then show ?thesis unfolding to_double_def by simp
qed

lemma to_double_exact: "n < 2 ^ 53 \<Longrightarrow> to_double n = enat n"
  by (simp add: to_double_def)

lemma to_double_rounds:
  "to_double 9007199254740993 = enat 9007199254740992 \<and>
   to_double 9007199254740995 = enat 9007199254740996"
  by (simp add: to_double_def Let_def)

section \<open>The comparator: loop, positions and keys\<close>

declare compare_loop.simps [simp del]

lemma segment_at_padded: "segment_at (padded n ts) i = segment_at ts i"
  by (auto simp: segment_at_def padded_def nth_append)

lemma length_padded: "length ts \<le> n \<Longrightarrow> length (padded n ts) = n"
  by (simp add: padded_def)

lemma drop_padded:
  "length ts \<le> n \<Longrightarrow> i < n \<Longrightarrow>
   drop i (padded n ts) = segment_at ts i # drop (Suc i) (padded n ts)"
  using Cons_nth_drop_Suc [of i "padded n ts"] segment_at_padded [of n ts i]
  by (simp add: length_padded segment_at_def)

lemma compare_loop_positions:
  "length ta \<le> n \<Longrightarrow> length tb \<le> n \<Longrightarrow>
   compare_loop ta tb n i = compare_positions (drop i (padded n ta)) (drop i (padded n tb))"
proof (induction ta tb n i rule: compare_loop.induct)
  case (1 ta tb n i)
  show ?case
  proof (cases "i < n")
    case False
    with 1(3,4) show ?thesis by (subst compare_loop.simps) (simp add: length_padded)
  next
    case True
    note dA = drop_padded [OF 1(3) True] and dB = drop_padded [OF 1(4) True]
    show ?thesis
    proof (cases "segment_at ta i")
      case nA: (NumberSeg x)
      show ?thesis
      proof (cases "segment_at tb i")
        case nB: (NumberSeg y)
        with nA True 1(1) [OF True refl nA nB] 1(3,4) dA dB show ?thesis
          by (subst compare_loop.simps) simp
      next
        case sB: (StringSeg y)
        with nA True dA dB show ?thesis by (subst compare_loop.simps) simp
      qed
    next
      case sA: (StringSeg x)
      show ?thesis
      proof (cases "segment_at tb i")
        case nB: (NumberSeg y)
        with sA True dA dB show ?thesis by (subst compare_loop.simps) simp
      next
        case sB: (StringSeg y)
        with sA True 1(2) [OF True refl sA sB] 1(3,4) dA dB show ?thesis
          by (subst compare_loop.simps) simp
      qed
    qed
  qed
qed

lemma compare_positions_keys:
  "length xs = length ys \<Longrightarrow>
   compare_positions xs ys = three_way (map seg_key xs) (map seg_key ys)"
proof (induction xs ys rule: list_induct2)
  case Nil
  show ?case by (simp add: three_way_def)
next
  case (Cons a as b bs)
  then show ?case
    by (cases a; cases b) (auto simp: three_way_def less_prod_def less_eq_prod_def)
qed

lemma less_append_same:
  "length xs = length ys \<Longrightarrow> (xs @ zs < ys @ zs) = (xs < (ys :: ('a::linorder) list))"
  by (induction xs ys rule: list_induct2) auto

lemma three_way_append:
  "length xs = length ys \<Longrightarrow>
   three_way (xs @ zs) (ys @ zs) = three_way xs (ys :: ('a::linorder) list)"
  by (simp add: three_way_def less_append_same)

lemma compareVersionStrings_loop:
  "compareVersionStrings a b =
     compare_loop (tokenizeVersion a) (tokenizeVersion b)
       (max (length (tokenizeVersion a)) (length (tokenizeVersion b))) 0"
  by (simp add: compareVersionStrings_def Let_def)

lemma compareVersionStrings_keys:
  assumes "length (tokenizeVersion a) \<le> n" and "length (tokenizeVersion b) \<le> n"
  shows "compareVersionStrings a b = three_way (version_key n a) (version_key n b)"
proof -
  define ta where "ta = tokenizeVersion a"
  define tb where "tb = tokenizeVersion b"
  define m where "m = max (length ta) (length tb)"
  have la: "length ta \<le> m" and lb: "length tb \<le> m" by (simp_all add: m_def)
  have mn: "m \<le> n" using assms by (simp add: m_def ta_def tb_def)
  have pa: "padded n ta = padded m ta @ replicate (n - m) (NumberSeg 0)"
    using la mn by (simp add: padded_def replicate_add [symmetric])
  have pb: "padded n tb = padded m tb @ replicate (n - m) (NumberSeg 0)"
    using lb mn by (simp add: padded_def replicate_add [symmetric])
  have "compareVersionStrings a b = compare_loop ta tb m 0"
    by (simp add: compareVersionStrings_loop ta_def tb_def m_def)
  also have "\<dots> = compare_positions (padded m ta) (padded m tb)"
    using compare_loop_positions [OF la lb, of 0] by simp
  also have "\<dots> = three_way (map seg_key (padded m ta)) (map seg_key (padded m tb))"
    by (rule compare_positions_keys) (simp add: length_padded la lb)
  also have "\<dots> = three_way (map seg_key (padded n ta)) (map seg_key (padded n tb))"
    unfolding pa pb map_append
    by (rule three_way_append [symmetric]) (simp add: length_padded la lb)
  finally show ?thesis by (simp add: version_key_def ta_def tb_def)
qed

lemma compare_refl: "compareVersionStrings a a = 0"
  using compareVersionStrings_keys [of a "length (tokenizeVersion a)" a]
  by (simp add: three_way_def)

lemma compare_antisym: "compareVersionStrings a b = - compareVersionStrings b a"
proof -
  define n where "n = max (length (tokenizeVersion a)) (length (tokenizeVersion b))"
  have "length (tokenizeVersion a) \<le> n" "length (tokenizeVersion b) \<le> n"
    by (simp_all add: n_def)
  then show ?thesis
    using compareVersionStrings_keys [of a n b] compareVersionStrings_keys [of b n a]
    by (auto simp: three_way_def)
qed

lemma compare_trans:
  assumes "compareVersionStrings a b > 0" and "compareVersionStrings b c > 0"
  shows "compareVersionStrings a c > 0"
proof -
  define n where "n = max (length (tokenizeVersion a))
    (max (length (tokenizeVersion b)) (length (tokenizeVersion c)))"
  have l: "length (tokenizeVersion a) \<le> n" "length (tokenizeVersion b) \<le> n"
    "length (tokenizeVersion c) \<le> n" by (simp_all add: n_def)
  have "version_key n a > version_key n b"
    using assms(1) compareVersionStrings_keys [OF l(1) l(2)]
    by (auto simp: three_way_def split: if_splits)
  moreover have "version_key n b > version_key n c"
    using assms(2) compareVersionStrings_keys [OF l(2) l(3)]
    by (auto simp: three_way_def split: if_splits)
  ultimately have "version_key n a > version_key n c" by simp
  then show ?thesis
    using compareVersionStrings_keys [OF l(1) l(3)] by (auto simp: three_way_def)
qed

section \<open>Claims about the comparator\<close>

text \<open>
  C3. The specification's parenthetical says that \<^verbatim>\<open>"1.0" > "1.0-beta"\<close> is false, that is,
  the comparator does not return a positive result on \<^verbatim>\<open>"1.0"\<close> and \<^verbatim>\<open>"1.0-beta"\<close>.
  The source returns 1 there: the third position of \<^verbatim>\<open>"1.0"\<close> is missing and reads as the
  number 0, which outranks the string segment \<^verbatim>\<open>beta\<close>.
\<close>

theorem C3_release_vs_qualifier_counterexample:
  "\<not> (compareVersionStrings ''1.0'' ''1.0-beta'' \<le> 0)"
  by code_simp

text \<open>
  C3, corrected. On \<^verbatim>\<open>"1.0"\<close> and \<^verbatim>\<open>"1.0-beta"\<close> the comparator returns 1 (the plain
  release is strictly greater), and -1 with the arguments exchanged.
\<close>

theorem C3_release_outranks_qualifier:
  "compareVersionStrings ''1.0'' ''1.0-beta'' = 1 \<and>
   compareVersionStrings ''1.0-beta'' ''1.0'' = - 1"
  by code_simp

text \<open>
  C4. The comparator is a total order on version strings in this sense: a string
  compares equal to itself, exchanging the arguments negates the result, and
  strictly-greater is transitive. (Different strings may compare equal, as
  \<^verbatim>\<open>"1.0"\<close> and \<^verbatim>\<open>"1.0.0"\<close> do.)
\<close>

theorem C4_comparator_total_order:
  "(\<forall>a. compareVersionStrings a a = 0) \<and>
   (\<forall>a b. compareVersionStrings a b = - compareVersionStrings b a) \<and>
   (\<forall>a b c. compareVersionStrings a b > 0 \<and> compareVersionStrings b c > 0
       \<longrightarrow> compareVersionStrings a c > 0)"
  using compare_refl compare_antisym compare_trans by blast

theorem C4_comparator_total_order_witness:
  "compareVersionStrings ''2.0'' ''1.10'' > 0 \<and> compareVersionStrings ''1.10'' ''1.9-rc'' > 0 \<and>
   compareVersionStrings ''2.0'' ''1.9-rc'' > 0 \<and>
   compareVersionStrings ''2.0'' ''2.0'' = 0 \<and>
   compareVersionStrings ''1.10'' ''2.0'' = - compareVersionStrings ''2.0'' ''1.10''"
proof -
  have ab: "compareVersionStrings ''2.0'' ''1.10'' > 0" by code_simp
  have bc: "compareVersionStrings ''1.10'' ''1.9-rc'' > 0" by code_simp
  from C4_comparator_total_order
  have r: "compareVersionStrings ''2.0'' ''2.0'' = 0"
    and s: "compareVersionStrings ''1.10'' ''2.0'' = - compareVersionStrings ''2.0'' ''1.10''"
    and t: "compareVersionStrings ''2.0'' ''1.10'' > 0 \<and> compareVersionStrings ''1.10'' ''1.9-rc'' > 0
       \<longrightarrow> compareVersionStrings ''2.0'' ''1.9-rc'' > 0"
    by blast+
  from t ab bc have "compareVersionStrings ''2.0'' ''1.9-rc'' > 0" by blast
  with ab bc r s show ?thesis by blast
qed

lemma compare_loop_equal_step:
  "i < n \<Longrightarrow> segment_at ta i = segment_at tb i \<Longrightarrow>
   compare_loop ta tb n i = compare_loop ta tb n (Suc i)"
  by (subst compare_loop.simps) (simp split: VersionSegment.splits)

lemma compare_loop_equal_prefix:
  "k \<le> n \<Longrightarrow> \<forall>j<k. segment_at ta j = segment_at tb j \<Longrightarrow>
   compare_loop ta tb n 0 = compare_loop ta tb n k"
proof (induction k)
  case 0
  show ?case by simp
next
  case (Suc k)
  then have "compare_loop ta tb n 0 = compare_loop ta tb n k" by simp
  also have "\<dots> = compare_loop ta tb n (Suc k)"
    using Suc.prems by (intro compare_loop_equal_step) simp_all
  finally show ?case .
qed

lemma segment_at_StringSeg: "segment_at ts i = StringSeg s \<Longrightarrow> i < length ts"
  by (auto simp: segment_at_def split: if_splits)

text \<open>
  C2. Where two tokenized version strings agree on all positions before \<open>i\<close> (a missing
  position reading as the number 0) and at position \<open>i\<close> one has a number segment and the
  other a string segment, the one with the number segment is strictly greater: the
  comparator returns 1 with it as first argument and -1 with it as second. For
  \<^verbatim>\<open>"1.0.0"\<close> against \<^verbatim>\<open>"1.0.beta"\<close> the result is 1.
\<close>

theorem C2_number_outranks_string:
  "(\<forall>a b i x y.
      (\<forall>j<i. segment_at (tokenizeVersion a) j = segment_at (tokenizeVersion b) j) \<and>
      segment_at (tokenizeVersion a) i = NumberSeg x \<and>
      segment_at (tokenizeVersion b) i = StringSeg y
      \<longrightarrow> compareVersionStrings a b = 1 \<and> compareVersionStrings b a = - 1) \<and>
   compareVersionStrings ''1.0.0'' ''1.0.beta'' = 1"
proof (intro conjI allI impI)
  show "compareVersionStrings ''1.0.0'' ''1.0.beta'' = 1" by code_simp
next
  fix a b i x y
  assume h: "(\<forall>j<i. segment_at (tokenizeVersion a) j = segment_at (tokenizeVersion b) j) \<and>
      segment_at (tokenizeVersion a) i = NumberSeg x \<and>
      segment_at (tokenizeVersion b) i = StringSeg y"
  define n where "n = max (length (tokenizeVersion a)) (length (tokenizeVersion b))"
  from h have "i < length (tokenizeVersion b)" using segment_at_StringSeg by blast
  then have i: "i < n" by (simp add: n_def)
  have "compareVersionStrings a b = compare_loop (tokenizeVersion a) (tokenizeVersion b) n 0"
    by (simp add: compareVersionStrings_loop n_def)
  also have "\<dots> = compare_loop (tokenizeVersion a) (tokenizeVersion b) n i"
    using h i by (intro compare_loop_equal_prefix) simp_all
  also have "\<dots> = 1"
    using h i by (subst compare_loop.simps) simp
  finally show ab: "compareVersionStrings a b = 1" .
  show "compareVersionStrings b a = - 1"
    using ab compare_antisym [of b a] by simp
qed

theorem C2_number_outranks_string_witness:
  "segment_at (tokenizeVersion ''1.0.0'') 0 = segment_at (tokenizeVersion ''1.0.beta'') 0 \<and>
   segment_at (tokenizeVersion ''1.0.0'') 1 = segment_at (tokenizeVersion ''1.0.beta'') 1 \<and>
   segment_at (tokenizeVersion ''1.0.0'') 2 = NumberSeg 0 \<and>
   segment_at (tokenizeVersion ''1.0.beta'') 2 = StringSeg ''beta'' \<and>
   compareVersionStrings ''1.0.beta'' ''1.0.0'' = - 1"
proof -
  have ta: "tokenizeVersion ''1.0.0'' = [NumberSeg 1, NumberSeg 0, NumberSeg 0]" by code_simp
  have tb: "tokenizeVersion ''1.0.beta'' = [NumberSeg 1, NumberSeg 0, StringSeg ''beta'']"
    by code_simp
  have p: "\<forall>j<2. segment_at (tokenizeVersion ''1.0.0'') j
                 = segment_at (tokenizeVersion ''1.0.beta'') j"
    unfolding ta tb by (simp add: segment_at_def less_Suc_eq numeral_2_eq_2)
  have x: "segment_at (tokenizeVersion ''1.0.0'') 2 = NumberSeg 0"
    unfolding ta by (simp add: segment_at_def)
  have y: "segment_at (tokenizeVersion ''1.0.beta'') 2 = StringSeg ''beta''"
    unfolding tb by (simp add: segment_at_def)
  from C2_number_outranks_string p x y
  have "compareVersionStrings ''1.0.beta'' ''1.0.0'' = - 1" by blast
  with p x y show ?thesis by simp
qed

lemma split_on_not_Nil: "split_on p s \<noteq> []"
  by (induction s) (auto split: list.splits)

lemma split_on_no_delimiter: "\<forall>c\<in>set r. \<not> p c \<Longrightarrow> split_on p r = [r]"
  by (induction r) auto

lemma split_on_append:
  "p d \<Longrightarrow> \<forall>c\<in>set r. \<not> p c \<Longrightarrow> split_on p (a @ d # r) = split_on p a @ [r]"
proof (induction a)
  case Nil
  then show ?case by (simp add: split_on_no_delimiter)
next
  case (Cons c a)
  then show ?case
    using split_on_not_Nil [of p a] by (cases "split_on p a") auto
qed

lemma tokenizeVersion_dot_zero:
  "tokenizeVersion (a @ ''.0'') = tokenizeVersion a @ [NumberSeg 0]"
proof -
  have s: "split_on is_delimiter (a @ ''.0'') = split_on is_delimiter a @ [''0'']"
    by (rule split_on_append) (simp_all add: is_delimiter_def)
  have t: "trim ''0'' = ''0''" by code_simp
  have d: "is_digits ''0''" by code_simp
  have v: "parseInt10 ''0'' = 0" by code_simp
  show ?thesis unfolding tokenizeVersion_def s by (simp add: t d v)
qed

lemma compare_dot_zero: "compareVersionStrings a (a @ ''.0'') = 0"
proof -
  define n where "n = Suc (length (tokenizeVersion a))"
  have "version_key n a = version_key n (a @ ''.0'')"
    by (simp add: version_key_def tokenizeVersion_dot_zero padded_def n_def)
  moreover have "compareVersionStrings a (a @ ''.0'')
      = three_way (version_key n a) (version_key n (a @ ''.0''))"
    by (rule compareVersionStrings_keys) (simp_all add: n_def tokenizeVersion_dot_zero)
  ultimately show ?thesis by (simp add: three_way_def)
qed

text \<open>
  C5. The loop of the source computes what the specification's padding describes:
  \<open>compareVersionStrings\<close> equals the position-by-position comparison of the two
  token sequences padded with number segments 0 to the length of the longer one; a
  position at or beyond the end of a token sequence reads as the number segment 0; and
  every version string \<open>a\<close> compares equal to \<open>a\<close> followed by \<^verbatim>\<open>".0"\<close>, as
  \<^verbatim>\<open>"1.0"\<close> and \<^verbatim>\<open>"1.0.0"\<close> do.
\<close>

theorem C5_missing_positions_are_zero:
  "compareVersionStrings a b = compareVersionStrings_padded a b \<and>
   segment_at (tokenizeVersion a) (length (tokenizeVersion a) + k) = NumberSeg 0 \<and>
   compareVersionStrings a (a @ ''.0'') = 0 \<and>
   compareVersionStrings ''1.0'' ''1.0.0'' = 0"
proof -
  define ta where "ta = tokenizeVersion a"
  define tb where "tb = tokenizeVersion b"
  have "compare_loop ta tb (max (length ta) (length tb)) 0 =
        compare_positions (padded (max (length ta) (length tb)) ta)
          (padded (max (length ta) (length tb)) tb)"
    using compare_loop_positions [of ta "max (length ta) (length tb)" tb 0] by simp
  then have "compareVersionStrings a b = compareVersionStrings_padded a b"
    by (simp add: compareVersionStrings_loop compareVersionStrings_padded_def Let_def
        ta_def tb_def)
  moreover have "compareVersionStrings ''1.0'' ''1.0.0'' = 0"
    using compare_dot_zero [of "''1.0''"] by simp
  ultimately show ?thesis
    by (simp add: segment_at_def compare_dot_zero)
qed

section \<open>The selector on the feeds of the scenarios\<close>

lemma querySelector_enclosure_feed_item:
  "querySelector ''enclosure'' (feed_item attrs d) = Some (Element ''enclosure'' attrs [])"
  by (simp add: querySelector_def feed_item_def)

lemma querySelector_pubDate_feed_item:
  "querySelector ''pubDate'' (feed_item attrs d) =
     (case d of None \<Rightarrow> None | Some t \<Rightarrow> Some (Element ''pubDate'' [] [Text t]))"
  by (simp add: querySelector_def feed_item_def split: option.splits)

lemma candidate_of_feed_item:
  "candidate_of dp (feed_item attrs d) =
     (case map_of attrs ''url'' of
        None \<Rightarrow> None
      | Some url \<Rightarrow>
          if trim url = [] then None
          else
            (let versionAttr =
                   (case map_of attrs ''sparkle:version'' of None \<Rightarrow> [] | Some v \<Rightarrow> trim v);
                 shortVersion =
                   (case map_of attrs ''sparkle:shortVersionString'' of
                      None \<Rightarrow> [] | Some v \<Rightarrow> trim v);
                 pubDateText = (case d of None \<Rightarrow> [] | Some t \<Rightarrow> trim t)
             in Some \<lparr>
                  versionKey = (if versionAttr \<noteq> [] then Some versionAttr
                                else if shortVersion \<noteq> [] then Some shortVersion else None),
                  displayVersion = (if shortVersion \<noteq> [] then shortVersion
                                    else if versionAttr \<noteq> [] then versionAttr else []),
                  downloadUrl = trim url,
                  pubDate = (if pubDateText \<noteq> [] then dp pubDateText else None)\<rparr>))"
  by (simp add: candidate_of_def querySelector_enclosure_feed_item
      querySelector_pubDate_feed_item trimmed_attribute_def Let_def
      split: option.splits)

lemma channel_items_below_feed_item: "channel_items_below (feed_item attrs d) = []"
  by (cases d) (simp_all add: feed_item_def)

lemma is_item_feed_item: "is_element_named ''item'' (feed_item attrs d)"
  by (simp add: feed_item_def)

lemma items_of_feed:
  "querySelectorAll_channel_item (feed items) =
     concat (map (\<lambda>child. (if is_element_named ''item'' child then [child] else [])
                           @ channel_items_below child) items)"
  by (simp add: querySelectorAll_channel_item_def feed_def)

lemmas feed_simps = items_of_feed channel_items_below_feed_item is_item_feed_item
  candidate_of_feed_item findLatestSparkleRelease_def Let_def

section \<open>Number segments and integer magnitude\<close>

lemma parseInt10_decimal: "parseInt10 s = to_double (decimal_value s)"
  by (simp add: parseInt10_def decimal_value_def)

lemma is_digit_plain: "is_digit c \<Longrightarrow> \<not> is_white_space c \<and> \<not> is_delimiter c"
  by (auto simp: is_digit_def is_white_space_def is_delimiter_def Let_def)

lemma dropWhile_none: "\<forall>x\<in>set xs. \<not> P x \<Longrightarrow> dropWhile P xs = xs"
  by (cases xs) auto

lemma trim_no_white_space: "\<forall>c\<in>set s. \<not> is_white_space c \<Longrightarrow> trim s = s"
  by (simp add: trim_def dropWhile_none)

lemma tokenizeVersion_digits:
  assumes "is_digits s"
  shows "tokenizeVersion s = [NumberSeg (parseInt10 s)]"
proof -
  from assms have ne: "s \<noteq> []" and d: "\<forall>c\<in>set s. is_digit c"
    by (simp_all add: is_digits_def list_all_iff)
  from d have "split_on is_delimiter s = [s]"
    using is_digit_plain by (intro split_on_no_delimiter) blast
  moreover from d have "trim s = s"
    using is_digit_plain by (intro trim_no_white_space) blast
  ultimately show ?thesis
    using ne assms by (simp add: tokenizeVersion_def)
qed

lemma split_on_delimiter:
  "p d \<Longrightarrow> split_on p (a @ d # b) = split_on p a @ split_on p b"
proof (induction a)
  case Nil
  then show ?case by simp
next
  case (Cons c a)
  then show ?case
    using split_on_not_Nil [of p a] by (cases "split_on p a") auto
qed

lemma tokenizeVersion_dot:
  "tokenizeVersion (a @ ''.'' @ b) = tokenizeVersion a @ tokenizeVersion b"
proof -
  have "split_on is_delimiter (a @ CHR ''.'' # b)
      = split_on is_delimiter a @ split_on is_delimiter b"
    by (rule split_on_delimiter) (simp add: is_delimiter_def)
  then show ?thesis by (simp add: tokenizeVersion_def)
qed

lemma number_against_number:
  assumes eq: "\<forall>j<i. segment_at (tokenizeVersion a) j = segment_at (tokenizeVersion b) j"
    and x: "segment_at (tokenizeVersion a) i = NumberSeg x"
    and y: "segment_at (tokenizeVersion b) i = NumberSeg y"
    and less: "y < x"
  shows "compareVersionStrings a b = 1"
proof -
  define n where "n = max (length (tokenizeVersion a)) (length (tokenizeVersion b))"
  have i: "i < n"
  proof (rule ccontr)
    assume "\<not> i < n"
    then have "segment_at (tokenizeVersion a) i = NumberSeg 0"
      and "segment_at (tokenizeVersion b) i = NumberSeg 0"
      by (auto simp: segment_at_def n_def)
    with x y less show False by simp
  qed
  have "compareVersionStrings a b = compare_loop (tokenizeVersion a) (tokenizeVersion b) n 0"
    by (simp add: compareVersionStrings_loop n_def)
  also have "\<dots> = compare_loop (tokenizeVersion a) (tokenizeVersion b) n i"
    using eq i by (intro compare_loop_equal_prefix) simp_all
  also have "\<dots> = 1"
    using x y less i by (subst compare_loop.simps) auto
  finally show ?thesis .
qed

lemma segment_at_append_left: "j < length p \<Longrightarrow> segment_at (p @ r) j = p ! j"
  by (simp add: segment_at_def nth_append)

lemma segment_at_append_here: "segment_at (p @ v # r) (length p) = v"
  by (simp add: segment_at_def)

lemma compare_same_tokens:
  "tokenizeVersion a = tokenizeVersion b \<Longrightarrow> compareVersionStrings a b = 0"
  using compareVersionStrings_keys [of a "length (tokenizeVersion a)" b]
  by (simp add: three_way_def version_key_def)

text \<open>
  C1. The specification says that number segments compare by integer magnitude. The
  source reads a run of digits with \<^verbatim>\<open>parseInt\<close> into a double, so from \<open>2 ^ 53\<close> on
  different integers may read as the same number: \<^verbatim>\<open>"9007199254740993"\<close> and
  \<^verbatim>\<open>"9007199254740992"\<close> are runs of digits of different magnitude, and the comparator
  returns 0 on them.
\<close>

theorem C1_magnitude_counterexample:
  "is_digits ''9007199254740993'' \<and> is_digits ''9007199254740992'' \<and>
   decimal_value ''9007199254740992'' < decimal_value ''9007199254740993'' \<and>
   compareVersionStrings ''9007199254740993'' ''9007199254740992'' = 0"
proof -
  have d1: "is_digits ''9007199254740993''" and d2: "is_digits ''9007199254740992''"
    by code_simp+
  have v1: "decimal_value ''9007199254740993'' = 9007199254740993"
    and v2: "decimal_value ''9007199254740992'' = 9007199254740992"
    by (simp_all add: decimal_value_def digit_value_def)
  have r1: "to_double 9007199254740993 = enat 9007199254740992"
    and r2: "to_double 9007199254740992 = enat 9007199254740992"
    by (simp_all add: to_double_def Let_def)
  have "tokenizeVersion ''9007199254740993'' = tokenizeVersion ''9007199254740992''"
    unfolding tokenizeVersion_digits [OF d1] tokenizeVersion_digits [OF d2]
      parseInt10_decimal v1 v2 r1 r2 ..
  then have "compareVersionStrings ''9007199254740993'' ''9007199254740992'' = 0"
    by (rule compare_same_tokens)
  with d1 d2 v1 v2 show ?thesis by simp
qed

text \<open>
  C1, corrected. Number segments compare by the number read, not lexically: where two
  tokenized version strings agree before position \<open>i\<close> and have number segments at \<open>i\<close>,
  the one with the greater number is strictly greater. A run of digits denoting an
  integer below \<open>2 ^ 53\<close> reads as that integer, so that two version strings which
  differ first in two such runs of digits compare by the integer magnitude of the runs.
  \<^verbatim>\<open>"10.0"\<close> against \<^verbatim>\<open>"9.0"\<close> gives a positive result, and for a feed of three items with
  the version identifiers \<^verbatim>\<open>"1.2.0"\<close>, \<^verbatim>\<open>"1.10.0"\<close>, \<^verbatim>\<open>"1.9.5"\<close>, each with a url that is not
  empty after trimming and without publish date, the selector returns the entry of
  \<^verbatim>\<open>"1.10.0"\<close>, whatever the date parser is.
\<close>

theorem C1_numeric_magnitude:
  "(\<forall>a b i x y.
      (\<forall>j<i. segment_at (tokenizeVersion a) j = segment_at (tokenizeVersion b) j) \<and>
      segment_at (tokenizeVersion a) i = NumberSeg x \<and>
      segment_at (tokenizeVersion b) i = NumberSeg y \<and> y < x
      \<longrightarrow> compareVersionStrings a b = 1 \<and> compareVersionStrings b a = - 1) \<and>
   (\<forall>s. is_digits s \<and> decimal_value s < 2 ^ 53
      \<longrightarrow> tokenizeVersion s = [NumberSeg (enat (decimal_value s))]) \<and>
   (\<forall>p q r s t.
      is_digits s \<and> is_digits t \<and>
      decimal_value t < decimal_value s \<and> decimal_value s < 2 ^ 53
      \<longrightarrow> compareVersionStrings (p @ ''.'' @ s @ ''.'' @ q) (p @ ''.'' @ t @ ''.'' @ r) = 1 \<and>
          compareVersionStrings (p @ ''.'' @ t @ ''.'' @ r) (p @ ''.'' @ s @ ''.'' @ q) = - 1) \<and>
   compareVersionStrings ''10.0'' ''9.0'' > 0 \<and>
   (\<forall>dateParse u1 u2 u3.
      trim u1 \<noteq> [] \<and> trim u2 \<noteq> [] \<and> trim u3 \<noteq> [] \<longrightarrow>
      findLatestSparkleRelease dateParse
        (feed [feed_item [(''url'', u1), (''sparkle:version'', ''1.2.0'')] None,
               feed_item [(''url'', u2), (''sparkle:version'', ''1.10.0'')] None,
               feed_item [(''url'', u3), (''sparkle:version'', ''1.9.5'')] None])
      = Some \<lparr>version = ''1.10.0'', download_url = trim u2\<rparr>)"
proof (intro conjI allI impI)
  fix a b i x y
  assume h: "(\<forall>j<i. segment_at (tokenizeVersion a) j = segment_at (tokenizeVersion b) j) \<and>
      segment_at (tokenizeVersion a) i = NumberSeg x \<and>
      segment_at (tokenizeVersion b) i = NumberSeg y \<and> y < x"
  then show ab: "compareVersionStrings a b = 1"
    by (intro number_against_number [of i a b x y]) simp_all
  show "compareVersionStrings b a = - 1"
    using ab compare_antisym [of b a] by simp
next
  fix s
  assume "is_digits s \<and> decimal_value s < 2 ^ 53"
  then show "tokenizeVersion s = [NumberSeg (enat (decimal_value s))]"
    by (simp add: tokenizeVersion_digits parseInt10_decimal to_double_exact)
next
  fix p q r s t
  assume h: "is_digits s \<and> is_digits t \<and>
      decimal_value t < decimal_value s \<and> decimal_value s < 2 ^ 53"
  define P where "P = tokenizeVersion p"
  define a where "a = p @ ''.'' @ s @ ''.'' @ q"
  define b where "b = p @ ''.'' @ t @ ''.'' @ r"
  from h have vs: "parseInt10 s = enat (decimal_value s)"
    and vt: "parseInt10 t = enat (decimal_value t)"
    by (simp_all add: parseInt10_decimal to_double_exact)
  have ta: "tokenizeVersion a = P @ NumberSeg (enat (decimal_value s)) # tokenizeVersion q"
    using h unfolding a_def P_def
    by (simp only: tokenizeVersion_dot tokenizeVersion_digits vs) simp
  have tb: "tokenizeVersion b = P @ NumberSeg (enat (decimal_value t)) # tokenizeVersion r"
    using h unfolding b_def P_def
    by (simp only: tokenizeVersion_dot tokenizeVersion_digits vt) simp
  have "\<forall>j<length P. segment_at (tokenizeVersion a) j = segment_at (tokenizeVersion b) j"
    unfolding ta tb by (simp add: segment_at_append_left)
  moreover have "segment_at (tokenizeVersion a) (length P) = NumberSeg (enat (decimal_value s))"
    unfolding ta by (rule segment_at_append_here)
  moreover have "segment_at (tokenizeVersion b) (length P) = NumberSeg (enat (decimal_value t))"
    unfolding tb by (rule segment_at_append_here)
  moreover from h have "enat (decimal_value t) < enat (decimal_value s)" by simp
  ultimately have ab: "compareVersionStrings a b = 1"
    by (rule number_against_number)
  then show "compareVersionStrings (p @ ''.'' @ s @ ''.'' @ q) (p @ ''.'' @ t @ ''.'' @ r) = 1"
    by (simp only: a_def b_def)
  have "compareVersionStrings b a = - 1"
    using ab compare_antisym [of b a] by simp
  then show "compareVersionStrings (p @ ''.'' @ t @ ''.'' @ r) (p @ ''.'' @ s @ ''.'' @ q) = - 1"
    by (simp only: a_def b_def)
next
  show "compareVersionStrings ''10.0'' ''9.0'' > 0" by code_simp
next
  fix dateParse :: "string \<Rightarrow> int option" and u1 u2 u3
  assume u: "trim u1 \<noteq> [] \<and> trim u2 \<noteq> [] \<and> trim u3 \<noteq> []"
  have t: "trim ''1.2.0'' = ''1.2.0''" "trim ''1.10.0'' = ''1.10.0''"
    "trim ''1.9.5'' = ''1.9.5''"
    by code_simp+
  have c: "compareVersionStrings ''1.10.0'' ''1.2.0'' = 1"
    "compareVersionStrings ''1.9.5'' ''1.10.0'' = - 1"
    by code_simp+
  show "findLatestSparkleRelease dateParse
        (feed [feed_item [(''url'', u1), (''sparkle:version'', ''1.2.0'')] None,
               feed_item [(''url'', u2), (''sparkle:version'', ''1.10.0'')] None,
               feed_item [(''url'', u3), (''sparkle:version'', ''1.9.5'')] None])
      = Some \<lparr>version = ''1.10.0'', download_url = trim u2\<rparr>"
    using u by (simp add: feed_simps t c truthy_def)
qed


theorem C1_numeric_magnitude_witness:
  "segment_at (tokenizeVersion ''1.10.0'') 0 = segment_at (tokenizeVersion ''1.9.5'') 0 \<and>
   segment_at (tokenizeVersion ''1.10.0'') 1 = NumberSeg 10 \<and>
   segment_at (tokenizeVersion ''1.9.5'') 1 = NumberSeg 9 \<and> (9 :: enat) < 10 \<and>
   compareVersionStrings ''1.9.5'' ''1.10.0'' = - 1 \<and>
   is_digits ''10'' \<and> is_digits ''9'' \<and> decimal_value ''9'' < decimal_value ''10'' \<and>
   decimal_value ''10'' < 2 ^ 53 \<and>
   tokenizeVersion ''10'' = [NumberSeg 10] \<and>
   compareVersionStrings ''1.10.0'' ''1.9.5'' = 1 \<and>
   trim ''https://example.org/a.dmg'' \<noteq> [] \<and> trim '' https://example.org/b.dmg '' \<noteq> [] \<and>
   trim ''https://example.org/c.dmg'' \<noteq> [] \<and>
   findLatestSparkleRelease (\<lambda>s. None)
     (feed [feed_item [(''url'', ''https://example.org/a.dmg''),
                       (''sparkle:version'', ''1.2.0'')] None,
            feed_item [(''url'', '' https://example.org/b.dmg ''),
                       (''sparkle:version'', ''1.10.0'')] None,
            feed_item [(''url'', ''https://example.org/c.dmg''),
                       (''sparkle:version'', ''1.9.5'')] None])
   = Some \<lparr>version = ''1.10.0'', download_url = ''https://example.org/b.dmg''\<rparr>"
proof -
  note rule = C1_numeric_magnitude
  have ta: "tokenizeVersion ''1.10.0'' = [NumberSeg 1, NumberSeg 10, NumberSeg 0]" by code_simp
  have tb: "tokenizeVersion ''1.9.5'' = [NumberSeg 1, NumberSeg 9, NumberSeg 5]" by code_simp
  have s0: "segment_at (tokenizeVersion ''1.10.0'') 0 = segment_at (tokenizeVersion ''1.9.5'') 0"
    unfolding ta tb by (simp add: segment_at_def)
  have s1: "segment_at (tokenizeVersion ''1.10.0'') 1 = NumberSeg 10"
    unfolding ta by (simp add: segment_at_def)
  have s2: "segment_at (tokenizeVersion ''1.9.5'') 1 = NumberSeg 9"
    unfolding tb by (simp add: segment_at_def)
  have lt: "(9 :: enat) < 10" by simp
  have pre: "\<forall>j<1. segment_at (tokenizeVersion ''1.10.0'') j
                   = segment_at (tokenizeVersion ''1.9.5'') j"
    using s0 by simp
  from rule [THEN conjunct1, rule_format, of 1 "''1.10.0''" "''1.9.5''" 10 9] pre s1 s2 lt
  have g1: "compareVersionStrings ''1.9.5'' ''1.10.0'' = - 1" by blast
  have d10: "is_digits ''10''" and d9: "is_digits ''9''" by code_simp+
  have v10: "decimal_value ''10'' = 10" and v9: "decimal_value ''9'' = 9"
    by (simp_all add: decimal_value_def digit_value_def)
  have vlt: "decimal_value ''9'' < decimal_value ''10''" unfolding v10 v9 by simp
  have small: "decimal_value ''10'' < 2 ^ 53" unfolding v10 by simp
  from rule [THEN conjunct2, THEN conjunct1, rule_format, of "''10''"] d10 small
  have g2: "tokenizeVersion ''10'' = [NumberSeg 10]"
    unfolding v10 by (simp add: numeral_eq_enat)
  from rule [THEN conjunct2, THEN conjunct2, THEN conjunct1, rule_format,
      of "''10''" "''9''" "''1''" "''0''" "''5''"] d10 d9 vlt small
  have g3: "compareVersionStrings ''1.10.0'' ''1.9.5'' = 1" by simp
  have a: "trim ''https://example.org/a.dmg'' \<noteq> []" by code_simp
  have b: "trim '' https://example.org/b.dmg '' = ''https://example.org/b.dmg''" by code_simp
  have c: "trim ''https://example.org/c.dmg'' \<noteq> []" by code_simp
  from b have b': "trim '' https://example.org/b.dmg '' \<noteq> []" by simp
  from rule [THEN conjunct2, THEN conjunct2, THEN conjunct2, THEN conjunct2, rule_format,
      of "''https://example.org/a.dmg''" "'' https://example.org/b.dmg ''"
         "''https://example.org/c.dmg''" "\<lambda>s. None"] a b' c
  have g4: "findLatestSparkleRelease (\<lambda>s. None)
     (feed [feed_item [(''url'', ''https://example.org/a.dmg''),
                       (''sparkle:version'', ''1.2.0'')] None,
            feed_item [(''url'', '' https://example.org/b.dmg ''),
                       (''sparkle:version'', ''1.10.0'')] None,
            feed_item [(''url'', ''https://example.org/c.dmg''),
                       (''sparkle:version'', ''1.9.5'')] None])
      = Some \<lparr>version = ''1.10.0'', download_url = ''https://example.org/b.dmg''\<rparr>"
    unfolding b by blast
  from s0 s1 s2 lt g1 d10 d9 vlt small g2 g3 a b' c g4 show ?thesis by blast
qed

section \<open>Invariants of the selection loop\<close>

lemma trim_idem: "trim (trim s) = trim s"
proof -
  define t where "t = dropWhile is_white_space s"
  define u where "u = rev (dropWhile is_white_space (rev t))"
  have "rev (takeWhile is_white_space (rev t) @ dropWhile is_white_space (rev t))
        = u @ rev (takeWhile is_white_space (rev t))"
    unfolding u_def by (rule rev_append)
  then have "t = u @ rev (takeWhile is_white_space (rev t))"
    by simp
  then obtain r where tu: "t = u @ r" ..
  have at_front: "dropWhile is_white_space u = u"
  proof (cases u)
    case Nil
    then show ?thesis by simp
  next
    case (Cons x xs)
    with tu have "t \<noteq> []" and "hd t = x" by simp_all
    then have "\<not> is_white_space x"
      using hd_dropWhile [of is_white_space s] by (simp add: t_def)
    with Cons show ?thesis by simp
  qed
  have at_back: "dropWhile is_white_space (rev u) = rev u"
    by (simp add: u_def)
  have "trim s = u" by (simp add: trim_def t_def u_def)
  moreover have "trim u = u" by (simp add: trim_def at_front at_back)
  ultimately show ?thesis by simp
qed

lemma trimmed_nonempty_trim: "trim s \<noteq> [] \<Longrightarrow> trimmed_nonempty (trim s)"
  by (simp add: trimmed_nonempty_def trim_idem)

lemma candidate_of_None: "candidate_of dp item = None \<longleftrightarrow> unusable_item item"
  by (simp add: candidate_of_def unusable_item_def Let_def split: option.splits)

lemma candidate_of_invariant:
  "candidate_of dp item = Some c \<Longrightarrow> candidate_invariant c"
  by (auto simp: candidate_of_def candidate_invariant_def Let_def trimmed_attribute_def
      trimmed_nonempty_trim split: option.splits if_splits)

lemma select_step_cases:
  "select_step (Some latest) candidate = candidate \<or> select_step (Some latest) candidate = latest"
  by (simp add: by_pubDate_def Let_def split: option.splits)

lemma select_step_invariant:
  "candidate_invariant c \<Longrightarrow> (case l of None \<Rightarrow> True | Some b \<Rightarrow> candidate_invariant b) \<Longrightarrow>
   candidate_invariant (select_step l c)"
proof (cases l)
  case None
  assume "candidate_invariant c"
  with None show ?thesis by simp
next
  case (Some b)
  assume "candidate_invariant c" and "case l of None \<Rightarrow> True | Some b \<Rightarrow> candidate_invariant b"
  with Some select_step_cases [of b c] show ?thesis by auto
qed

lemma running_best_invariant:
  "(case l of None \<Rightarrow> True | Some b \<Rightarrow> candidate_invariant b) \<Longrightarrow>
   best \<in> set (running_best dp l items) \<Longrightarrow>
   (case best of None \<Rightarrow> True | Some b \<Rightarrow> candidate_invariant b)"
proof (induction items arbitrary: l)
  case Nil
  then show ?case by simp
next
  case (Cons item items)
  show ?case
  proof (cases "candidate_of dp item")
    case None
    with Cons show ?thesis by auto
  next
    case (Some c)
    then have inv: "candidate_invariant (select_step l c)"
      using Cons.prems(1) candidate_of_invariant select_step_invariant by blast
    from Cons.prems(2) Some
    have "best = Some (select_step l c) \<or>
          best \<in> set (running_best dp (Some (select_step l c)) items)"
      by simp
    then show ?thesis
    proof
      assume "best = Some (select_step l c)"
      with inv show ?thesis by simp
    next
      assume "best \<in> set (running_best dp (Some (select_step l c)) items)"
      with Cons.IH [of "Some (select_step l c)"] inv show ?thesis by simp
    qed
  qed
qed

lemma select_loop_running_best:
  "select_loop dp l items = last (l # running_best dp l items)"
  by (induction items arbitrary: l) (auto split: option.splits)

lemma truthy_Some: "truthy k = Some s \<Longrightarrow> k = Some s \<and> s \<noteq> []"
  by (auto simp: truthy_def split: option.splits if_splits)

lemma comparator_calls_invariant:
  "(case l of None \<Rightarrow> True | Some b \<Rightarrow> candidate_invariant b) \<Longrightarrow>
   (x, y) \<in> set (comparator_calls dp l items) \<Longrightarrow>
   trimmed_nonempty x \<and> trimmed_nonempty y"
proof (induction items arbitrary: l)
  case Nil
  then show ?case by simp
next
  case (Cons item items)
  show ?case
  proof (cases "candidate_of dp item")
    case None
    with Cons show ?thesis by auto
  next
    case (Some c)
    have cinv: "candidate_invariant c" using Some by (rule candidate_of_invariant)
    then have inv: "candidate_invariant (select_step l c)"
      using Cons.prems(1) select_step_invariant by blast
    from Cons.prems(2) Some
    have "(\<exists>b. l = Some b \<and> truthy (versionKey c) = Some x \<and> truthy (versionKey b) = Some y) \<or>
          (x, y) \<in> set (comparator_calls dp (Some (select_step l c)) items)"
      by (auto split: option.splits)
    then show ?thesis
    proof
      assume "\<exists>b. l = Some b \<and> truthy (versionKey c) = Some x \<and> truthy (versionKey b) = Some y"
      then obtain b where "l = Some b" "versionKey c = Some x" "versionKey b = Some y"
        using truthy_Some by blast
      with cinv Cons.prems(1) show ?thesis by (simp add: candidate_invariant_def)
    next
      assume "(x, y) \<in> set (comparator_calls dp (Some (select_step l c)) items)"
      with Cons.IH [of "Some (select_step l c)"] inv show ?thesis by simp
    qed
  qed
qed

lemma select_loop_Some: "select_loop dp (Some l) items \<noteq> None"
  by (induction items arbitrary: l) (auto split: option.splits)

lemma candidate_of_Some: "candidate_of dp item = Some c \<Longrightarrow> \<not> unusable_item item"
  using candidate_of_None [of dp item] by simp

lemma select_loop_None:
  "select_loop dp None items = None \<longleftrightarrow> (\<forall>item\<in>set items. unusable_item item)"
proof (induction items)
  case Nil
  show ?case by simp
next
  case (Cons item items)
  show ?case
  proof (cases "candidate_of dp item")
    case None
    with Cons candidate_of_None [of dp item] show ?thesis by simp
  next
    case (Some c)
    with candidate_of_Some [OF Some] show ?thesis by (simp add: select_loop_Some)
  qed
qed

lemma select_loop_filter:
  "select_loop dp l items = select_loop dp l (filter (\<lambda>item. \<not> unusable_item item) items)"
proof (induction items arbitrary: l)
  case Nil
  show ?case by simp
next
  case (Cons item items)
  show ?case
  proof (cases "candidate_of dp item")
    case None
    with Cons candidate_of_None [of dp item] show ?thesis by simp
  next
    case (Some c)
    with candidate_of_Some [OF Some] Cons [of "Some (select_step l c)"] show ?thesis by simp
  qed
qed

section \<open>Claims about the selector\<close>

text \<open>
  C6. When the loop compares a candidate with the running best and their version keys
  are equal under the comparator, or both are absent, the dates decide: a candidate
  without a known date never replaces the best (so of two unknown dates the earlier
  seen is kept, and an unknown date never beats a known one); a candidate with a known
  date replaces a best without one; and of two known dates the candidate replaces the
  best exactly when its date is strictly later. For two items of version \<^verbatim>\<open>"2.0.0"\<close>
  dated 2024 and 2025, in either order, the selector returns the 2025 entry, for every
  date parser that reads the two dates as instants in that order.
\<close>

theorem C6_date_tie_break:
  "(\<forall>latest candidate.
      (\<exists>ck lk. truthy (versionKey candidate) = Some ck \<and> truthy (versionKey latest) = Some lk \<and>
               compareVersionStrings ck lk = 0) \<or>
      (truthy (versionKey candidate) = None \<and> truthy (versionKey latest) = None)
      \<longrightarrow>
      (pubDate candidate = None \<longrightarrow> select_step (Some latest) candidate = latest) \<and>
      (\<forall>tc. pubDate candidate = Some tc \<and> pubDate latest = None
            \<longrightarrow> select_step (Some latest) candidate = candidate) \<and>
      (\<forall>tc tl. pubDate candidate = Some tc \<and> pubDate latest = Some tl
            \<longrightarrow> select_step (Some latest) candidate = (if tc > tl then candidate else latest))) \<and>
   (\<forall>dateParse u1 u2 t1 t2.
      trim u1 \<noteq> [] \<and> trim u2 \<noteq> [] \<and>
      dateParse ''Mon, 01 Jan 2024 00:00:00 GMT'' = Some t1 \<and>
      dateParse ''Wed, 01 Jan 2025 00:00:00 GMT'' = Some t2 \<and> t1 < t2
      \<longrightarrow>
      findLatestSparkleRelease dateParse
        (feed [feed_item [(''url'', u1), (''sparkle:version'', ''2.0.0'')]
                 (Some ''Mon, 01 Jan 2024 00:00:00 GMT''),
               feed_item [(''url'', u2), (''sparkle:version'', ''2.0.0'')]
                 (Some ''Wed, 01 Jan 2025 00:00:00 GMT'')])
        = Some \<lparr>version = ''2.0.0'', download_url = trim u2\<rparr> \<and>
      findLatestSparkleRelease dateParse
        (feed [feed_item [(''url'', u2), (''sparkle:version'', ''2.0.0'')]
                 (Some ''Wed, 01 Jan 2025 00:00:00 GMT''),
               feed_item [(''url'', u1), (''sparkle:version'', ''2.0.0'')]
                 (Some ''Mon, 01 Jan 2024 00:00:00 GMT'')])
        = Some \<lparr>version = ''2.0.0'', download_url = trim u2\<rparr>)"
proof (intro conjI allI impI)
  fix latest candidate :: SparkleReleaseCandidate
  assume h: "(\<exists>ck lk. truthy (versionKey candidate) = Some ck \<and> truthy (versionKey latest) = Some lk \<and>
               compareVersionStrings ck lk = 0) \<or>
      (truthy (versionKey candidate) = None \<and> truthy (versionKey latest) = None)"
  then have step: "select_step (Some latest) candidate = by_pubDate latest candidate"
    by auto
  { assume "pubDate candidate = None"
    then show "select_step (Some latest) candidate = latest"
      unfolding step by (simp add: by_pubDate_def) }
  { fix tc assume "pubDate candidate = Some tc \<and> pubDate latest = None"
    then show "select_step (Some latest) candidate = candidate"
      unfolding step by (simp add: by_pubDate_def) }
  { fix tc tl assume "pubDate candidate = Some tc \<and> pubDate latest = Some tl"
    then show "select_step (Some latest) candidate = (if tc > tl then candidate else latest)"
      unfolding step by (simp add: by_pubDate_def) }
next
  fix dateParse :: "string \<Rightarrow> int option" and u1 u2 t1 t2
  assume h: "trim u1 \<noteq> [] \<and> trim u2 \<noteq> [] \<and>
      dateParse ''Mon, 01 Jan 2024 00:00:00 GMT'' = Some t1 \<and>
      dateParse ''Wed, 01 Jan 2025 00:00:00 GMT'' = Some t2 \<and> t1 < t2"
  have t: "trim ''2.0.0'' = ''2.0.0''"
    "trim ''Mon, 01 Jan 2024 00:00:00 GMT'' = ''Mon, 01 Jan 2024 00:00:00 GMT''"
    "trim ''Wed, 01 Jan 2025 00:00:00 GMT'' = ''Wed, 01 Jan 2025 00:00:00 GMT''"
    by code_simp+
  have c: "compareVersionStrings ''2.0.0'' ''2.0.0'' = 0" by (rule compare_refl)
  show "findLatestSparkleRelease dateParse
        (feed [feed_item [(''url'', u1), (''sparkle:version'', ''2.0.0'')]
                 (Some ''Mon, 01 Jan 2024 00:00:00 GMT''),
               feed_item [(''url'', u2), (''sparkle:version'', ''2.0.0'')]
                 (Some ''Wed, 01 Jan 2025 00:00:00 GMT'')])
        = Some \<lparr>version = ''2.0.0'', download_url = trim u2\<rparr>"
    using h by (simp add: feed_simps t c truthy_def by_pubDate_def)
  show "findLatestSparkleRelease dateParse
        (feed [feed_item [(''url'', u2), (''sparkle:version'', ''2.0.0'')]
                 (Some ''Wed, 01 Jan 2025 00:00:00 GMT''),
               feed_item [(''url'', u1), (''sparkle:version'', ''2.0.0'')]
                 (Some ''Mon, 01 Jan 2024 00:00:00 GMT'')])
        = Some \<lparr>version = ''2.0.0'', download_url = trim u2\<rparr>"
    using h by (simp add: feed_simps t c truthy_def by_pubDate_def)
qed

theorem C6_date_tie_break_witness:
  "trim ''https://example.org/old.dmg'' \<noteq> [] \<and> trim ''https://example.org/new.dmg'' \<noteq> [] \<and>
   scenario_dateParse ''Mon, 01 Jan 2024 00:00:00 GMT'' = Some 1704067200000 \<and>
   scenario_dateParse ''Wed, 01 Jan 2025 00:00:00 GMT'' = Some 1735689600000 \<and>
   (1704067200000 :: int) < 1735689600000 \<and>
   findLatestSparkleRelease scenario_dateParse
     (feed [feed_item [(''url'', ''https://example.org/old.dmg''), (''sparkle:version'', ''2.0.0'')]
              (Some ''Mon, 01 Jan 2024 00:00:00 GMT''),
            feed_item [(''url'', ''https://example.org/new.dmg''), (''sparkle:version'', ''2.0.0'')]
              (Some ''Wed, 01 Jan 2025 00:00:00 GMT'')])
     = Some \<lparr>version = ''2.0.0'', download_url = ''https://example.org/new.dmg''\<rparr> \<and>
   truthy (Some ''2.0.0'') = Some ''2.0.0'' \<and> compareVersionStrings ''2.0.0'' ''2.0.0'' = 0 \<and>
   select_step
     (Some \<lparr>versionKey = Some ''2.0.0'', displayVersion = ''2.0.0'', downloadUrl = ''a'',
            pubDate = Some 1\<rparr>)
     \<lparr>versionKey = Some ''2.0.0'', displayVersion = ''2.0.0'', downloadUrl = ''b'',
      pubDate = Some 2\<rparr>
   = \<lparr>versionKey = Some ''2.0.0'', displayVersion = ''2.0.0'', downloadUrl = ''b'',
      pubDate = Some 2\<rparr>"
proof -
  define lat :: SparkleReleaseCandidate where
    "lat = \<lparr>versionKey = Some ''2.0.0'', displayVersion = ''2.0.0'', downloadUrl = ''a'',
            pubDate = Some 1\<rparr>"
  define cand :: SparkleReleaseCandidate where
    "cand = \<lparr>versionKey = Some ''2.0.0'', displayVersion = ''2.0.0'', downloadUrl = ''b'',
             pubDate = Some 2\<rparr>"
  have u1: "trim ''https://example.org/old.dmg'' \<noteq> []" by code_simp
  have u2: "trim ''https://example.org/new.dmg'' = ''https://example.org/new.dmg''" by code_simp
  then have u2': "trim ''https://example.org/new.dmg'' \<noteq> []" by simp
  have d1: "scenario_dateParse ''Mon, 01 Jan 2024 00:00:00 GMT'' = Some 1704067200000"
    by (simp add: scenario_dateParse_def)
  have d2: "scenario_dateParse ''Wed, 01 Jan 2025 00:00:00 GMT'' = Some 1735689600000"
    by (simp add: scenario_dateParse_def)
  have lt: "(1704067200000 :: int) < 1735689600000" by simp
  have tr: "truthy (Some ''2.0.0'') = Some ''2.0.0''" by (simp add: truthy_def)
  have eq: "compareVersionStrings ''2.0.0'' ''2.0.0'' = 0" by code_simp
  have feed_part: "findLatestSparkleRelease scenario_dateParse
     (feed [feed_item [(''url'', ''https://example.org/old.dmg''), (''sparkle:version'', ''2.0.0'')]
              (Some ''Mon, 01 Jan 2024 00:00:00 GMT''),
            feed_item [(''url'', ''https://example.org/new.dmg''), (''sparkle:version'', ''2.0.0'')]
              (Some ''Wed, 01 Jan 2025 00:00:00 GMT'')])
     = Some \<lparr>version = ''2.0.0'', download_url = trim ''https://example.org/new.dmg''\<rparr>"
    using C6_date_tie_break [THEN conjunct2, rule_format,
        of "''https://example.org/old.dmg''" "''https://example.org/new.dmg''"
           scenario_dateParse 1704067200000 1735689600000]
      u1 u2' d1 d2 lt by blast
  have hyp: "(\<exists>ck lk. truthy (versionKey cand) = Some ck \<and> truthy (versionKey lat) = Some lk \<and>
               compareVersionStrings ck lk = 0) \<or>
      (truthy (versionKey cand) = None \<and> truthy (versionKey lat) = None)"
    using tr eq by (simp add: lat_def cand_def)
  have dates: "pubDate cand = Some 2 \<and> pubDate lat = Some 1"
    by (simp add: lat_def cand_def)
  have "select_step (Some lat) cand = (if (2::int) > 1 then cand else lat)"
    using C6_date_tie_break [THEN conjunct1, rule_format, OF hyp, THEN conjunct2, THEN conjunct2,
        rule_format, OF dates] .
  then have step_part: "select_step (Some lat) cand = cand" by simp
  from u1 u2' d1 d2 lt feed_part tr eq step_part show ?thesis
    unfolding u2 lat_def cand_def by blast
qed

text \<open>
  C7. A candidate with a version key wins over one without, whatever the dates: in the
  loop a versioned candidate replaces an unversioned best, and an unversioned candidate
  never replaces a versioned best. For a feed of one item with a version identifier and
  one item with only a url, the selector returns the versioned item in both document
  orders, for every date parser and whatever publish dates the items carry.
\<close>

theorem C7_versioned_beats_unversioned:
  "(\<forall>latest candidate ck.
      truthy (versionKey candidate) = Some ck \<and> truthy (versionKey latest) = None
      \<longrightarrow> select_step (Some latest) candidate = candidate) \<and>
   (\<forall>latest candidate lk.
      truthy (versionKey candidate) = None \<and> truthy (versionKey latest) = Some lk
      \<longrightarrow> select_step (Some latest) candidate = latest) \<and>
   (\<forall>dateParse u1 u2 v d1 d2.
      trim u1 \<noteq> [] \<and> trim u2 \<noteq> [] \<and> trim v \<noteq> []
      \<longrightarrow>
      findLatestSparkleRelease dateParse
        (feed [feed_item [(''url'', u1), (''sparkle:version'', v)] d1,
               feed_item [(''url'', u2)] d2])
        = Some \<lparr>version = trim v, download_url = trim u1\<rparr> \<and>
      findLatestSparkleRelease dateParse
        (feed [feed_item [(''url'', u2)] d2,
               feed_item [(''url'', u1), (''sparkle:version'', v)] d1])
        = Some \<lparr>version = trim v, download_url = trim u1\<rparr>)"
proof (intro conjI allI impI)
  fix latest candidate :: SparkleReleaseCandidate and ck
  assume "truthy (versionKey candidate) = Some ck \<and> truthy (versionKey latest) = None"
  then show "select_step (Some latest) candidate = candidate" by simp
next
  fix latest candidate :: SparkleReleaseCandidate and lk
  assume "truthy (versionKey candidate) = None \<and> truthy (versionKey latest) = Some lk"
  then show "select_step (Some latest) candidate = latest" by simp
next
  fix dateParse :: "string \<Rightarrow> int option" and u1 u2 v d1 d2
  assume h: "trim u1 \<noteq> [] \<and> trim u2 \<noteq> [] \<and> trim v \<noteq> []"
  then show "findLatestSparkleRelease dateParse
        (feed [feed_item [(''url'', u1), (''sparkle:version'', v)] d1,
               feed_item [(''url'', u2)] d2])
        = Some \<lparr>version = trim v, download_url = trim u1\<rparr>"
    by (simp add: feed_simps truthy_def)
  from h show "findLatestSparkleRelease dateParse
        (feed [feed_item [(''url'', u2)] d2,
               feed_item [(''url'', u1), (''sparkle:version'', v)] d1])
        = Some \<lparr>version = trim v, download_url = trim u1\<rparr>"
    by (simp add: feed_simps truthy_def)
qed

theorem C7_versioned_beats_unversioned_witness:
  "trim ''https://example.org/v.dmg'' \<noteq> [] \<and> trim ''https://example.org/plain.dmg'' \<noteq> [] \<and>
   trim ''3.1'' \<noteq> [] \<and>
   findLatestSparkleRelease scenario_dateParse
     (feed [feed_item [(''url'', ''https://example.org/v.dmg''), (''sparkle:version'', ''3.1'')]
              (Some ''Mon, 01 Jan 2024 00:00:00 GMT''),
            feed_item [(''url'', ''https://example.org/plain.dmg'')]
              (Some ''Wed, 01 Jan 2025 00:00:00 GMT'')])
     = Some \<lparr>version = ''3.1'', download_url = ''https://example.org/v.dmg''\<rparr> \<and>
   findLatestSparkleRelease scenario_dateParse
     (feed [feed_item [(''url'', ''https://example.org/plain.dmg'')]
              (Some ''Wed, 01 Jan 2025 00:00:00 GMT''),
            feed_item [(''url'', ''https://example.org/v.dmg''), (''sparkle:version'', ''3.1'')]
              (Some ''Mon, 01 Jan 2024 00:00:00 GMT'')])
     = Some \<lparr>version = ''3.1'', download_url = ''https://example.org/v.dmg''\<rparr> \<and>
   truthy (Some ''3.1'') = Some ''3.1'' \<and> truthy None = None \<and>
   select_step
     (Some \<lparr>versionKey = None, displayVersion = [], downloadUrl = ''a'', pubDate = Some 2\<rparr>)
     \<lparr>versionKey = Some ''3.1'', displayVersion = ''3.1'', downloadUrl = ''b'', pubDate = Some 1\<rparr>
   = \<lparr>versionKey = Some ''3.1'', displayVersion = ''3.1'', downloadUrl = ''b'', pubDate = Some 1\<rparr> \<and>
   select_step
     (Some \<lparr>versionKey = Some ''3.1'', displayVersion = ''3.1'', downloadUrl = ''b'',
            pubDate = Some 1\<rparr>)
     \<lparr>versionKey = None, displayVersion = [], downloadUrl = ''a'', pubDate = Some 2\<rparr>
   = \<lparr>versionKey = Some ''3.1'', displayVersion = ''3.1'', downloadUrl = ''b'', pubDate = Some 1\<rparr>"
proof -
  define plain :: SparkleReleaseCandidate where
    "plain = \<lparr>versionKey = None, displayVersion = [], downloadUrl = ''a'', pubDate = Some 2\<rparr>"
  define versioned :: SparkleReleaseCandidate where
    "versioned = \<lparr>versionKey = Some ''3.1'', displayVersion = ''3.1'', downloadUrl = ''b'',
                  pubDate = Some 1\<rparr>"
  have u1: "trim ''https://example.org/v.dmg'' = ''https://example.org/v.dmg''" by code_simp
  then have u1': "trim ''https://example.org/v.dmg'' \<noteq> []" by simp
  have u2: "trim ''https://example.org/plain.dmg'' \<noteq> []" by code_simp
  have v: "trim ''3.1'' = ''3.1''" by code_simp
  then have v': "trim ''3.1'' \<noteq> []" by simp
  have tv: "truthy (Some ''3.1'') = Some ''3.1''" and tn: "truthy None = None"
    by (simp_all add: truthy_def)
  note feed_part = C7_versioned_beats_unversioned [THEN conjunct2, THEN conjunct2, rule_format,
      of "''https://example.org/v.dmg''" "''https://example.org/plain.dmg''" "''3.1''"
         scenario_dateParse "Some ''Mon, 01 Jan 2024 00:00:00 GMT''"
         "Some ''Wed, 01 Jan 2025 00:00:00 GMT''", unfolded u1 v]
  have h1: "truthy (versionKey versioned) = Some ''3.1'' \<and> truthy (versionKey plain) = None"
    using tv tn by (simp add: plain_def versioned_def)
  have h2: "truthy (versionKey plain) = None \<and> truthy (versionKey versioned) = Some ''3.1''"
    using tv tn by (simp add: plain_def versioned_def)
  have s1: "select_step (Some plain) versioned = versioned"
    using C7_versioned_beats_unversioned [THEN conjunct1, rule_format, OF h1] .
  have s2: "select_step (Some versioned) plain = versioned"
    using C7_versioned_beats_unversioned [THEN conjunct2, THEN conjunct1, rule_format, OF h2] .
  from feed_part u1' u2 v' have
    "findLatestSparkleRelease scenario_dateParse
     (feed [feed_item [(''url'', ''https://example.org/v.dmg''), (''sparkle:version'', ''3.1'')]
              (Some ''Mon, 01 Jan 2024 00:00:00 GMT''),
            feed_item [(''url'', ''https://example.org/plain.dmg'')]
              (Some ''Wed, 01 Jan 2025 00:00:00 GMT'')])
     = Some \<lparr>version = ''3.1'', download_url = ''https://example.org/v.dmg''\<rparr> \<and>
   findLatestSparkleRelease scenario_dateParse
     (feed [feed_item [(''url'', ''https://example.org/plain.dmg'')]
              (Some ''Wed, 01 Jan 2025 00:00:00 GMT''),
            feed_item [(''url'', ''https://example.org/v.dmg''), (''sparkle:version'', ''3.1'')]
              (Some ''Mon, 01 Jan 2024 00:00:00 GMT'')])
     = Some \<lparr>version = ''3.1'', download_url = ''https://example.org/v.dmg''\<rparr>"
    by blast
  with u1' u2 v' tv tn s1 s2 show ?thesis
    unfolding plain_def versioned_def by blast
qed

text \<open>
  C8. The selector returns the absent result exactly when every item of the channel is
  unusable, that is, has no enclosure or an enclosure whose url attribute is absent or
  empty after trimming; in particular when the channel has no item at all. Unusable
  items are only left out: the loop gives the same result on the items with the
  unusable ones removed. The selector has no failure of its own: no operation of the
  source raises, so the model is a total function into an optional result, with no
  error value to return.
\<close>

theorem C8_no_usable_item_gives_none:
  "(findLatestSparkleRelease dateParse xml = None \<longleftrightarrow>
      (\<forall>item\<in>set (querySelectorAll_channel_item xml). unusable_item item)) \<and>
   (querySelectorAll_channel_item xml = [] \<longrightarrow> findLatestSparkleRelease dateParse xml = None) \<and>
   select_loop dateParse None items
     = select_loop dateParse None (filter (\<lambda>item. \<not> unusable_item item) items)"
proof -
  have "findLatestSparkleRelease dateParse xml = None \<longleftrightarrow>
        select_loop dateParse None (querySelectorAll_channel_item xml) = None"
    by (simp add: findLatestSparkleRelease_def split: option.splits)
  then have iff: "findLatestSparkleRelease dateParse xml = None \<longleftrightarrow>
      (\<forall>item\<in>set (querySelectorAll_channel_item xml). unusable_item item)"
    by (simp add: select_loop_None)
  then have "querySelectorAll_channel_item xml = [] \<longrightarrow>
      findLatestSparkleRelease dateParse xml = None"
    by simp
  with iff select_loop_filter [of dateParse None items] show ?thesis by blast
qed

theorem C8_no_usable_item_gives_none_witness:
  "querySelectorAll_channel_item
     (feed [Element ''item'' [] [Element ''title'' [] [Text ''1.0'']],
            feed_item [(''url'', ''  ''), (''sparkle:version'', ''1.1'')] None,
            feed_item [(''sparkle:version'', ''1.2'')] None])
   = [Element ''item'' [] [Element ''title'' [] [Text ''1.0'']],
      feed_item [(''url'', ''  ''), (''sparkle:version'', ''1.1'')] None,
      feed_item [(''sparkle:version'', ''1.2'')] None] \<and>
   unusable_item (Element ''item'' [] [Element ''title'' [] [Text ''1.0'']]) \<and>
   unusable_item (feed_item [(''url'', ''  ''), (''sparkle:version'', ''1.1'')] None) \<and>
   unusable_item (feed_item [(''sparkle:version'', ''1.2'')] None) \<and>
   findLatestSparkleRelease scenario_dateParse
     (feed [Element ''item'' [] [Element ''title'' [] [Text ''1.0'']],
            feed_item [(''url'', ''  ''), (''sparkle:version'', ''1.1'')] None,
            feed_item [(''sparkle:version'', ''1.2'')] None]) = None \<and>
   querySelectorAll_channel_item (feed []) = [] \<and>
   findLatestSparkleRelease scenario_dateParse (feed []) = None"
proof -
  define i1 where "i1 = Element ''item'' [] [Element ''title'' [] [Text ''1.0'']]"
  define i2 where "i2 = feed_item [(''url'', ''  ''), (''sparkle:version'', ''1.1'')] None"
  define i3 where "i3 = feed_item [(''sparkle:version'', ''1.2'')] None"
  have items: "querySelectorAll_channel_item (feed [i1, i2, i3]) = [i1, i2, i3]"
    by (simp add: items_of_feed i1_def i2_def i3_def channel_items_below_feed_item
        is_item_feed_item)
  have t: "trim ''  '' = []" by code_simp
  have b1: "unusable_item i1"
    by (simp add: unusable_item_def i1_def querySelector_def)
  have b2: "unusable_item i2"
    by (simp add: unusable_item_def i2_def querySelector_enclosure_feed_item t)
  have b3: "unusable_item i3"
    by (simp add: unusable_item_def i3_def querySelector_enclosure_feed_item)
  have all: "\<forall>item\<in>set (querySelectorAll_channel_item (feed [i1, i2, i3])). unusable_item item"
    unfolding items using b1 b2 b3 by simp
  have none: "findLatestSparkleRelease scenario_dateParse (feed [i1, i2, i3]) = None"
    using C8_no_usable_item_gives_none [of scenario_dateParse "feed [i1, i2, i3]", THEN conjunct1]
      all by blast
  have empty: "querySelectorAll_channel_item (feed []) = []"
    by (simp add: items_of_feed)
  have none': "findLatestSparkleRelease scenario_dateParse (feed []) = None"
    using C8_no_usable_item_gives_none [of scenario_dateParse "feed []", THEN conjunct2,
        THEN conjunct1] empty by blast
  from items b1 b2 b3 none empty none' show ?thesis
    unfolding i1_def i2_def i3_def by blast
qed

lemma channel_items_below_sound:
  "item \<in> set (channel_items_below n) \<Longrightarrow>
   is_element_named ''item'' item \<and> item \<in> set (descendants n) \<and>
   (\<exists>p\<in>set (n # descendants n). is_element_named ''channel'' p)"
proof (induction n)
  case (Text s)
  then show ?case by simp
next
  case (Element tag attrs children)
  from Element.prems obtain child where child: "child \<in> set children"
    and cases: "(tag = ''channel'' \<and> is_element_named ''item'' child \<and> item = child) \<or>
                item \<in> set (channel_items_below child)"
    by (auto split: if_splits)
  from cases show ?case
  proof
    assume "tag = ''channel'' \<and> is_element_named ''item'' child \<and> item = child"
    with child show ?thesis by auto
  next
    assume "item \<in> set (channel_items_below child)"
    with Element.IH [OF child] child show ?thesis by auto
  qed
qed

lemma no_wrapping_no_items:
  assumes "(\<forall>n\<in>set (all_nodes xml). \<not> is_element_named ''channel'' n) \<or>
           (\<forall>n\<in>set (all_nodes xml). \<not> is_element_named ''item'' n)"
  shows "querySelectorAll_channel_item xml = []"
proof (rule ccontr)
  assume "querySelectorAll_channel_item xml \<noteq> []"
  then obtain item where "item \<in> set (querySelectorAll_channel_item xml)"
    by (cases "querySelectorAll_channel_item xml") auto
  then obtain n where n: "n \<in> set xml" and "item \<in> set (channel_items_below n)"
    by (auto simp: querySelectorAll_channel_item_def)
  then have "is_element_named ''item'' item" and "item \<in> set (descendants n)"
    and "\<exists>p\<in>set (n # descendants n). is_element_named ''channel'' p"
    using channel_items_below_sound by blast+
  with n have "\<exists>m\<in>set (all_nodes xml). is_element_named ''item'' m"
    and "\<exists>p\<in>set (all_nodes xml). is_element_named ''channel'' p"
    by (auto simp: all_nodes_def)
  with assms show False by blast
qed

text \<open>
  C9. A document without any \<^verbatim>\<open>channel\<close> element, or without any \<^verbatim>\<open>item\<close> element, has
  no candidates, whatever enclosures it contains: the selector returns the absent
  result. So it does for the legacy shapes, a bare enclosure as the root or directly
  under the root element, whatever attributes the enclosure carries.
\<close>

theorem C9_bare_enclosure_gives_none:
  "((\<forall>n\<in>set (all_nodes xml). \<not> is_element_named ''channel'' n) \<or>
    (\<forall>n\<in>set (all_nodes xml). \<not> is_element_named ''item'' n)
    \<longrightarrow> findLatestSparkleRelease dateParse xml = None) \<and>
   findLatestSparkleRelease dateParse [Element ''enclosure'' attrs []] = None \<and>
   findLatestSparkleRelease dateParse [Element ''rss'' [] [Element ''enclosure'' attrs []]] = None"
proof (intro conjI impI)
  assume "(\<forall>n\<in>set (all_nodes xml). \<not> is_element_named ''channel'' n) \<or>
    (\<forall>n\<in>set (all_nodes xml). \<not> is_element_named ''item'' n)"
  then have "querySelectorAll_channel_item xml = []" by (rule no_wrapping_no_items)
  then show "findLatestSparkleRelease dateParse xml = None"
    by (simp add: findLatestSparkleRelease_def)
next
  show "findLatestSparkleRelease dateParse [Element ''enclosure'' attrs []] = None"
    by (simp add: findLatestSparkleRelease_def querySelectorAll_channel_item_def)
  show "findLatestSparkleRelease dateParse [Element ''rss'' [] [Element ''enclosure'' attrs []]] = None"
    by (simp add: findLatestSparkleRelease_def querySelectorAll_channel_item_def)
qed

theorem C9_bare_enclosure_gives_none_witness:
  "all_nodes [Element ''enclosure''
                [(''url'', ''https://example.org/a.dmg''), (''sparkle:version'', ''1.0'')]
                [Text ''legacy'']]
   = [Element ''enclosure''
        [(''url'', ''https://example.org/a.dmg''), (''sparkle:version'', ''1.0'')]
        [Text ''legacy''],
      Text ''legacy''] \<and>
   \<not> is_element_named ''channel''
       (Element ''enclosure''
          [(''url'', ''https://example.org/a.dmg''), (''sparkle:version'', ''1.0'')]
          [Text ''legacy'']) \<and>
   \<not> is_element_named ''channel'' (Text ''legacy'') \<and>
   findLatestSparkleRelease scenario_dateParse
     [Element ''enclosure''
        [(''url'', ''https://example.org/a.dmg''), (''sparkle:version'', ''1.0'')]
        [Text ''legacy'']] = None"
proof -
  define e where "e = Element ''enclosure''
        [(''url'', ''https://example.org/a.dmg''), (''sparkle:version'', ''1.0'')]
        [Text ''legacy'']"
  have nodes: "all_nodes [e] = [e, Text ''legacy'']" by (simp add: all_nodes_def e_def)
  have n1: "\<not> is_element_named ''channel'' e" by (simp add: e_def)
  have n2: "\<not> is_element_named ''channel'' (Text ''legacy'')" by simp
  have "\<forall>n\<in>set (all_nodes [e]). \<not> is_element_named ''channel'' n"
    unfolding nodes using n1 n2 by simp
  then have "findLatestSparkleRelease scenario_dateParse [e] = None"
    using C9_bare_enclosure_gives_none [of "[e]" scenario_dateParse, THEN conjunct1] by blast
  with nodes n1 n2 show ?thesis unfolding e_def by blast
qed

text \<open>
  C10. Every value the running best takes during the loop has a download url that is
  non-empty and trimmed, and a version key that, when present, is a non-empty trimmed
  string. Hence every call of the comparator that the loop makes has two non-empty
  (trimmed) strings as arguments, and every result the selector returns carries a
  non-empty (trimmed) download url. The list of values of the running best ends in the
  value the loop returns.
\<close>

theorem C10_candidate_invariant:
  "(\<forall>best\<in>set (running_best dateParse None (querySelectorAll_channel_item xml)).
      \<forall>c. best = Some c \<longrightarrow>
        downloadUrl c \<noteq> [] \<and> trim (downloadUrl c) = downloadUrl c \<and>
        (\<forall>k. versionKey c = Some k \<longrightarrow> k \<noteq> [] \<and> trim k = k)) \<and>
   (\<forall>(x, y)\<in>set (comparator_calls dateParse None (querySelectorAll_channel_item xml)).
      x \<noteq> [] \<and> trim x = x \<and> y \<noteq> [] \<and> trim y = y) \<and>
   (\<forall>v. findLatestSparkleRelease dateParse xml = Some v \<longrightarrow>
      download_url v \<noteq> [] \<and> trim (download_url v) = download_url v) \<and>
   select_loop dateParse None (querySelectorAll_channel_item xml)
     = last (None # running_best dateParse None (querySelectorAll_channel_item xml))"
proof (intro conjI ballI allI impI)
  fix best c
  assume "best \<in> set (running_best dateParse None (querySelectorAll_channel_item xml))"
    and "best = Some c"
  then have "candidate_invariant c"
    using running_best_invariant [of None best dateParse "querySelectorAll_channel_item xml"]
    by simp
  then show "downloadUrl c \<noteq> []" and "trim (downloadUrl c) = downloadUrl c"
    by (simp_all add: candidate_invariant_def trimmed_nonempty_def)
  fix k assume "versionKey c = Some k"
  with \<open>candidate_invariant c\<close> show "k \<noteq> []" and "trim k = k"
    by (simp_all add: candidate_invariant_def trimmed_nonempty_def)
next
  fix p
  assume p: "p \<in> set (comparator_calls dateParse None (querySelectorAll_channel_item xml))"
  obtain x y where xy: "p = (x, y)" by (cases p)
  with p have "trimmed_nonempty x \<and> trimmed_nonempty y"
    using comparator_calls_invariant [of None x y dateParse "querySelectorAll_channel_item xml"]
    by simp
  with xy show "case p of (x, y) \<Rightarrow> x \<noteq> [] \<and> trim x = x \<and> y \<noteq> [] \<and> trim y = y"
    by (simp add: trimmed_nonempty_def)
next
  fix v
  assume v: "findLatestSparkleRelease dateParse xml = Some v"
  then obtain latest where
    l: "select_loop dateParse None (querySelectorAll_channel_item xml) = Some latest"
    and dv: "download_url v = downloadUrl latest"
    by (auto simp: findLatestSparkleRelease_def split: option.splits)
  define bests where "bests = running_best dateParse None (querySelectorAll_channel_item xml)"
  from l have last: "last (None # bests) = Some latest"
    by (simp add: select_loop_running_best bests_def)
  then have "bests \<noteq> []" by auto
  with last have "Some latest \<in> set bests" by (metis last.simps last_in_set)
  then have "candidate_invariant latest"
    using running_best_invariant [of None "Some latest" dateParse
        "querySelectorAll_channel_item xml"]
    by (simp add: bests_def)
  with dv show "download_url v \<noteq> []" and "trim (download_url v) = download_url v"
    by (simp_all add: candidate_invariant_def trimmed_nonempty_def)
next
  show "select_loop dateParse None (querySelectorAll_channel_item xml)
     = last (None # running_best dateParse None (querySelectorAll_channel_item xml))"
    by (rule select_loop_running_best)
qed

theorem C10_candidate_invariant_witness:
  "comparator_calls scenario_dateParse None
     (querySelectorAll_channel_item
        (feed [feed_item [(''url'', '' https://example.org/a.dmg''), (''sparkle:version'', ''1.0 '')]
                 None,
               feed_item [(''url'', ''https://example.org/b.dmg ''),
                          (''sparkle:shortVersionString'', '' 1.1'')] None]))
   = [(''1.1'', ''1.0'')] \<and>
   ''1.1'' \<noteq> [] \<and> trim ''1.1'' = ''1.1'' \<and> ''1.0'' \<noteq> [] \<and> trim ''1.0'' = ''1.0'' \<and>
   findLatestSparkleRelease scenario_dateParse
     (feed [feed_item [(''url'', '' https://example.org/a.dmg''), (''sparkle:version'', ''1.0 '')]
              None,
            feed_item [(''url'', ''https://example.org/b.dmg ''),
                       (''sparkle:shortVersionString'', '' 1.1'')] None])
   = Some \<lparr>version = ''1.1'', download_url = ''https://example.org/b.dmg''\<rparr> \<and>
   ''https://example.org/b.dmg'' \<noteq> [] \<and>
   trim ''https://example.org/b.dmg'' = ''https://example.org/b.dmg'' \<and>
   Some \<lparr>versionKey = Some ''1.0'', displayVersion = ''1.0'',
         downloadUrl = ''https://example.org/a.dmg'', pubDate = None\<rparr>
     \<in> set (running_best scenario_dateParse None
         (querySelectorAll_channel_item
            (feed [feed_item [(''url'', '' https://example.org/a.dmg''),
                              (''sparkle:version'', ''1.0 '')] None,
                   feed_item [(''url'', ''https://example.org/b.dmg ''),
                              (''sparkle:shortVersionString'', '' 1.1'')] None]))) \<and>
   trim ''https://example.org/a.dmg'' = ''https://example.org/a.dmg''"
proof -
  define doc where "doc =
    feed [feed_item [(''url'', '' https://example.org/a.dmg''), (''sparkle:version'', ''1.0 '')]
            None,
          feed_item [(''url'', ''https://example.org/b.dmg ''),
                     (''sparkle:shortVersionString'', '' 1.1'')] None]"
  define c1 :: SparkleReleaseCandidate where
    "c1 = \<lparr>versionKey = Some ''1.0'', displayVersion = ''1.0'',
           downloadUrl = ''https://example.org/a.dmg'', pubDate = None\<rparr>"
  have calls: "comparator_calls scenario_dateParse None (querySelectorAll_channel_item doc)
      = [(''1.1'', ''1.0'')]"
    unfolding doc_def by code_simp
  have best: "running_best scenario_dateParse None (querySelectorAll_channel_item doc)
      = [Some c1,
         Some \<lparr>versionKey = Some ''1.1'', displayVersion = ''1.1'',
               downloadUrl = ''https://example.org/b.dmg'', pubDate = None\<rparr>]"
    unfolding doc_def c1_def by code_simp
  have result: "findLatestSparkleRelease scenario_dateParse doc
      = Some \<lparr>version = ''1.1'', download_url = ''https://example.org/b.dmg''\<rparr>"
    unfolding doc_def by code_simp
  note inv = C10_candidate_invariant [of scenario_dateParse doc]
  have m1: "Some c1 \<in> set (running_best scenario_dateParse None (querySelectorAll_channel_item doc))"
    unfolding best by simp
  have m2: "(''1.1'', ''1.0'')
      \<in> set (comparator_calls scenario_dateParse None (querySelectorAll_channel_item doc))"
    unfolding calls by simp
  from inv [THEN conjunct1, rule_format, OF m1 refl]
  have a: "trim ''https://example.org/a.dmg'' = ''https://example.org/a.dmg''"
    by (simp add: c1_def)
  from inv [THEN conjunct2, THEN conjunct1, rule_format, OF m2]
  have k: "''1.1'' \<noteq> [] \<and> trim ''1.1'' = ''1.1'' \<and> ''1.0'' \<noteq> [] \<and> trim ''1.0'' = ''1.0''"
    by simp
  from inv [THEN conjunct2, THEN conjunct2, THEN conjunct1, rule_format, OF result]
  have u: "''https://example.org/b.dmg'' \<noteq> [] \<and>
           trim ''https://example.org/b.dmg'' = ''https://example.org/b.dmg''"
    by simp
  from calls k result u m1 a show ?thesis
    unfolding doc_def c1_def by blast
qed

end
